theory Spec2Isabelle
  imports Complex_Main "HOL-Library.Product_Lexorder" "HOL-Library.Sublist"
begin

section \<open>Data model\<close>

text \<open>
  The tables of \<^verbatim>\<open>20250101000000_initial_schema.sql\<close>, each as a list of rows in scan
  order. Only the columns that the stored functions read or write are kept.
  Conventions of the embedding:
  \<^item> a \<^verbatim>\<open>UUID\<close> is a natural number; the fresh value that \<^verbatim>\<open>gen_random_uuid()\<close> gives a new
    row and the value of \<^verbatim>\<open>NOW()\<close> are arguments of the function that needs them;
  \<^item> a \<^verbatim>\<open>DATE\<close> is a triple (year, month, day) under the lexicographic order;
  \<^item> a \<^verbatim>\<open>NUMERIC\<close> amount is a rational number (the aggregation only adds such numbers,
    which PostgreSQL does exactly);
  \<^item> an \<^verbatim>\<open>INTEGER\<close> column holds an integer of the 32-bit range, and an addition that
    leaves the range raises an exception;
  \<^item> a nullable column or argument is an \<open>option\<close>: so are \<^verbatim>\<open>mapping_category_id\<close>,
    \<^verbatim>\<open>row_version\<close>, \<^verbatim>\<open>generated_at\<close> and the two projections, and so is
    \<^verbatim>\<open>source_examples\<close>, an array that may be \<^verbatim>\<open>NULL\<close> and whose elements may be \<^verbatim>\<open>NULL\<close>
    (the default of the column is the empty array);
  \<^item> the \<^verbatim>\<open>JSONB\<close> totals object is an association list from key to number;
  \<^item> a text is a list of characters, and \<^verbatim>\<open>LOWER\<close> folds the letters A to Z;
  \<^item> a function returns its result, or the exception it raises, together with the
    state of the database afterwards; an exception leaves the state as it was.
\<close>

type_synonym uuid = nat
type_synonym date = "int \<times> int \<times> int"
type_synonym timestamptz = nat
type_synonym numeric = rat
type_synonym jsonb = "(string \<times> numeric) list"

record category =
  cat_id :: uuid
  cat_name :: string
  canonical_type :: string
  source_examples :: "string option list option"

record account =
  acc_id :: uuid
  acc_company_id :: uuid
  acc_name :: string
  acc_type :: string
  mapping_category_id :: "uuid option"

record raw_transaction =
  rt_id :: uuid
  rt_company_id :: uuid
  rt_date :: date
  rt_amount :: numeric
  rt_account_id :: "uuid option"

record monthly_row =
  mr_id :: uuid
  mr_company_id :: uuid
  period_start :: date
  period_end :: date
  totals_by_account_type :: jsonb
  row_version :: "int option"
  generated_at :: "timestamptz option"
  source_run_id :: string

record projection_row =
  pr_company_id :: uuid
  snapshot_date :: date
  pr_month :: date
  revenue_projection :: "numeric option"
  cost_projection :: "numeric option"

record db =
  companies :: "uuid list"
  categories :: "category list"
  accounts :: "account list"
  raw_transactions :: "raw_transaction list"
  monthly_pl :: "monthly_row list"
  monthly_cash_flow :: "monthly_row list"
  projections_12m :: "projection_row list"

text \<open>
  Every \<^verbatim>\<open>RAISE EXCEPTION\<close> of the functions carries its message. The parameter checks
  are the kind \<open>InvalidArgument\<close>, a missing row is \<open>NotFound\<close>, and an insert for
  a company that is not in \<^verbatim>\<open>companies\<close> violates the foreign key of the table. The
  other three are the exceptions that PostgreSQL raises by itself in these functions:
  \<^item> \<open>NullValueNotAllowed\<close> (SQLSTATE 22004), when \<^verbatim>\<open>FOREACH\<close> is given an array that is
    \<^verbatim>\<open>NULL\<close>;
  \<^item> \<open>NumericValueOutOfRange\<close> (SQLSTATE 22003), when \<^verbatim>\<open>row_version + 1\<close> is above
    2147483647;
  \<^item> \<open>GroupingError\<close> (SQLSTATE 42803), when a query with aggregates and without
    \<^verbatim>\<open>GROUP BY\<close> names a plain column outside the aggregates.
\<close>

datatype error =
    InvalidArgument string
  | NotFound string
  | ForeignKeyViolation string
  | NullValueNotAllowed string
  | NumericValueOutOfRange string
  | GroupingError string

section \<open>Text operators\<close>

definition lower_char :: "char \<Rightarrow> char" where
  "lower_char c =
     (case map_of (zip ''ABCDEFGHIJKLMNOPQRSTUVWXYZ'' ''abcdefghijklmnopqrstuvwxyz'') c of
        Some l \<Rightarrow> l
      | None \<Rightarrow> c)"

definition lower :: "string \<Rightarrow> string" where
  "lower s = map lower_char s"

text \<open>
  \<^verbatim>\<open>text LIKE pattern\<close> with the default escape character: in the pattern \<^verbatim>\<open>%\<close> stands
  for any run of characters, \<^verbatim>\<open>_\<close> for any one character, and a backslash makes the
  next character literal. A pattern that ends in a lone backslash is rejected by
  PostgreSQL; the patterns built below always end in \<^verbatim>\<open>%\<close>, here such a pattern
  matches nothing.
\<close>

fun sql_like :: "string \<Rightarrow> string \<Rightarrow> bool" where
  "sql_like [] [] = True"
| "sql_like (c # cs) [] = False"
| "sql_like t (p # ps) =
     (if p = CHR ''%'' then
        (sql_like t ps \<or> (case t of [] \<Rightarrow> False | _ # ts \<Rightarrow> sql_like ts (p # ps)))
      else if p = CHR ''_'' then
        (case t of [] \<Rightarrow> False | _ # ts \<Rightarrow> sql_like ts ps)
      else if p = CHR 0x5C then
        (case ps of
           [] \<Rightarrow> False
         | q # qs \<Rightarrow> (case t of [] \<Rightarrow> False | c # ts \<Rightarrow> c = q \<and> sql_like ts qs))
      else
        (case t of [] \<Rightarrow> False | c # ts \<Rightarrow> c = p \<and> sql_like ts ps))"

definition contains_pattern :: "string \<Rightarrow> string" where
  "contains_pattern s = ''%'' @ s @ ''%''"

section \<open>Account mapping: fn\_map\_account\_to\_category\<close>

text \<open>
  The first nested loop: the inner \<^verbatim>\<open>FOREACH\<close> leaves at the first example equal to
  the account name up to case; the outer loop leaves as soon as the score is 100.
  \<^verbatim>\<open>FOREACH\<close> raises an exception when the array of the category is \<^verbatim>\<open>NULL\<close>; an
  element that is \<^verbatim>\<open>NULL\<close> makes the comparison \<^verbatim>\<open>NULL\<close>, and the \<^verbatim>\<open>IF\<close> is not taken.
\<close>

fun exact_in_examples :: "string \<Rightarrow> string option list \<Rightarrow> bool" where
  "exact_in_examples v_account_name [] = False"
| "exact_in_examples v_account_name (v_example # es) =
     (if (case v_example of
            None \<Rightarrow> False
          | Some e \<Rightarrow> lower v_account_name = lower e) then True
      else exact_in_examples v_account_name es)"

fun exact_match_loop :: "string \<Rightarrow> category list \<Rightarrow> error + uuid option \<times> int" where
  "exact_match_loop v_account_name [] = Inr (None, 0)"
| "exact_match_loop v_account_name (c # cs) =
     (case source_examples c of
        None \<Rightarrow> Inl (NullValueNotAllowed ''FOREACH expression must not be null'')
      | Some es \<Rightarrow>
          if exact_in_examples v_account_name es then Inr (Some (cat_id c), 100)
          else exact_match_loop v_account_name cs)"

text \<open>
  The second nested loop. Both tests are made for every example, each raising
  \<open>v_match_score\<close> with \<^verbatim>\<open>GREATEST\<close>; a category replaces the best one only with a
  strictly greater score. With an element that is \<^verbatim>\<open>NULL\<close> both \<^verbatim>\<open>LIKE\<close> tests are
  \<^verbatim>\<open>NULL\<close> and the score stays.
\<close>

fun fuzzy_examples :: "string \<Rightarrow> string option list \<Rightarrow> int \<Rightarrow> int" where
  "fuzzy_examples v_account_name [] v_match_score = v_match_score"
| "fuzzy_examples v_account_name (v_example # es) v_match_score =
     (case v_example of
        None \<Rightarrow> fuzzy_examples v_account_name es v_match_score
      | Some e \<Rightarrow>
          (let s1 = (if sql_like (lower v_account_name) (contains_pattern (lower e))
                     then max v_match_score 80 else v_match_score);
               s2 = (if sql_like (lower e) (contains_pattern (lower v_account_name))
                     then max s1 70 else s1)
           in fuzzy_examples v_account_name es s2))"

fun fuzzy_match_loop ::
  "string \<Rightarrow> category list \<Rightarrow> uuid option \<times> int \<Rightarrow> error + uuid option \<times> int" where
  "fuzzy_match_loop v_account_name [] best = Inr best"
| "fuzzy_match_loop v_account_name (c # cs) (v_best_category_id, v_best_score) =
     (case source_examples c of
        None \<Rightarrow> Inl (NullValueNotAllowed ''FOREACH expression must not be null'')
      | Some es \<Rightarrow>
          (let v_match_score = fuzzy_examples v_account_name es 0 in
           if v_match_score > v_best_score
           then fuzzy_match_loop v_account_name cs (Some (cat_id c), v_match_score)
           else fuzzy_match_loop v_account_name cs (v_best_category_id, v_best_score)))"

text \<open>The \<^verbatim>\<open>CASE\<close> on the account type, and \<^verbatim>\<open>SELECT id ... WHERE canonical_type = ... LIMIT 1\<close>,
  which gives \<^verbatim>\<open>NULL\<close> when no row is found.\<close>

definition fallback_canonical_type :: "string \<Rightarrow> string" where
  "fallback_canonical_type v_account_type =
     (if v_account_type = ''Income'' \<or> v_account_type = ''Other Income'' then ''revenue''
      else if v_account_type = ''Cost of Goods Sold'' then ''cogs''
      else if v_account_type = ''Expense'' \<or> v_account_type = ''Other Expense'' then ''opex''
      else if v_account_type = ''Bank'' \<or> v_account_type = ''Other Current Asset''
            \<or> v_account_type = ''Fixed Asset'' \<or> v_account_type = ''Other Asset''
            \<or> v_account_type = ''Accounts Receivable'' then ''asset''
      else if v_account_type = ''Accounts Payable'' \<or> v_account_type = ''Credit Card''
            \<or> v_account_type = ''Other Current Liability''
            \<or> v_account_type = ''Long Term Liability'' then ''liability''
      else if v_account_type = ''Equity'' then ''equity''
      else ''opex'')"

definition first_category_of_type :: "category list \<Rightarrow> string \<Rightarrow> uuid option" where
  "first_category_of_type cats ty =
     map_option cat_id (find (\<lambda>c. canonical_type c = ty) cats)"

definition best_match :: "category list \<Rightarrow> string \<Rightarrow> error + uuid option \<times> int" where
  "best_match cats v_account_name =
     (case exact_match_loop v_account_name cats of
        Inl e \<Rightarrow> Inl e
      | Inr best \<Rightarrow>
          if snd best < 100 then fuzzy_match_loop v_account_name cats best else Inr best)"

definition resolve_category :: "category list \<Rightarrow> string \<Rightarrow> string \<Rightarrow> error + uuid option" where
  "resolve_category cats v_account_name v_account_type =
     (case best_match cats v_account_name of
        Inl e \<Rightarrow> Inl e
      | Inr best \<Rightarrow>
          Inr (if snd best < 50
               then first_category_of_type cats (fallback_canonical_type v_account_type)
               else fst best))"

definition set_mapping :: "uuid \<Rightarrow> uuid option \<Rightarrow> account list \<Rightarrow> account list" where
  "set_mapping p_account_id v rows =
     map (\<lambda>r. if acc_id r = p_account_id then r\<lparr>mapping_category_id := v\<rparr> else r) rows"

definition fn_map_account_to_category :: "db \<Rightarrow> uuid \<Rightarrow> (error + uuid option) \<times> db" where
  "fn_map_account_to_category d p_account_id =
     (case find (\<lambda>a. acc_id a = p_account_id) (accounts d) of
        None \<Rightarrow> (Inl (NotFound ''Account not found''), d)
      | Some a \<Rightarrow>
          (case resolve_category (categories d) (acc_name a) (acc_type a) of
             Inl e \<Rightarrow> (Inl e, d)
           | Inr v_best_category_id \<Rightarrow>
               (Inr v_best_category_id,
                d\<lparr>accounts := set_mapping p_account_id v_best_category_id (accounts d)\<rparr>)))"

section \<open>Batch mapping: fn\_map\_company\_accounts\<close>






text \<open>No category of the list has \<^verbatim>\<open>NULL\<close> for its array of examples.\<close>

definition examples_not_null :: "category list \<Rightarrow> bool" where
  "examples_not_null cats = list_all (\<lambda>c. source_examples c \<noteq> None) cats"

text \<open>The examples of a category that are texts, and whether one of them is equal to
  the account name up to case.\<close>

definition non_null :: "'a option list \<Rightarrow> 'a list" where
  "non_null es = concat (map (\<lambda>e. case e of None \<Rightarrow> [] | Some x \<Rightarrow> [x]) es)"

definition labels :: "category \<Rightarrow> string list" where
  "labels c = (case source_examples c of None \<Rightarrow> [] | Some es \<Rightarrow> non_null es)"

definition has_exact_example :: "string \<Rightarrow> category \<Rightarrow> bool" where
  "has_exact_example v_account_name c = list_ex (\<lambda>e. lower v_account_name = lower e) (labels c)"



text \<open>The invariant of both matching stages: a positive score comes with a category
  of the catalog.\<close>

definition scored_in :: "category list \<Rightarrow> uuid option \<times> int \<Rightarrow> bool" where
  "scored_in cats best =
     (0 \<le> snd best \<and> (snd best = 0 \<or> (\<exists>c\<in>set cats. fst best = Some (cat_id c))))"


subsection \<open>The partial match in the words of the specification\<close>

text \<open>
  For comparison with the loop above: a category scores the greatest, over its
  examples, of 80 when the example is a substring of the account name up to case,
  70 when the account name is a substring of the example, and 0 otherwise; the best
  category is the first one in catalog order with the greatest score; below 50 the
  account type decides.
\<close>

definition spec_example_score :: "string \<Rightarrow> string \<Rightarrow> int" where
  "spec_example_score v_account_name v_example =
     (if sublist (lower v_example) (lower v_account_name) then 80
      else if sublist (lower v_account_name) (lower v_example) then 70
      else 0)"

definition spec_category_score :: "string \<Rightarrow> category \<Rightarrow> int" where
  "spec_category_score v_account_name c =
     fold max (map (spec_example_score v_account_name) (labels c)) 0"

definition spec_best_score :: "category list \<Rightarrow> string \<Rightarrow> int" where
  "spec_best_score cats v_account_name =
     fold max (map (spec_category_score v_account_name) cats) 0"

definition spec_resolve_category :: "category list \<Rightarrow> string \<Rightarrow> string \<Rightarrow> uuid option" where
  "spec_resolve_category cats v_account_name v_account_type =
     (if spec_best_score cats v_account_name < 50
      then first_category_of_type cats (fallback_canonical_type v_account_type)
      else map_option cat_id
             (find (\<lambda>c. spec_category_score v_account_name c
                          = spec_best_score cats v_account_name) cats))"

text \<open>A text without the characters that \<^verbatim>\<open>LIKE\<close> reads as wildcard or escape.\<close>

definition wildcard_free :: "string \<Rightarrow> bool" where
  "wildcard_free s = list_all (\<lambda>c. c \<noteq> CHR ''%'' \<and> c \<noteq> CHR ''_'' \<and> c \<noteq> CHR 0x5C) s"

section \<open>Monthly aggregation: fn\_generate\_monthly\_pl and fn\_generate\_monthly\_cash\_flow\<close>

text \<open>
  The three P\&L queries differ in the canonical type only: the sum of the amounts over
  the join of \<^verbatim>\<open>raw_transactions\<close>, \<^verbatim>\<open>accounts\<close> and \<^verbatim>\<open>categories\<close>, with \<^verbatim>\<open>COALESCE(SUM(...), 0)\<close>
  for an empty join.
\<close>

definition sum_by_canonical_type :: "db \<Rightarrow> uuid \<Rightarrow> date \<Rightarrow> date \<Rightarrow> string \<Rightarrow> numeric" where
  "sum_by_canonical_type d p_company_id p_period_start p_period_end ty =
     sum_list [rt_amount rt.
                 rt \<leftarrow> raw_transactions d,
                 acc \<leftarrow> accounts d, rt_account_id rt = Some (acc_id acc),
                 cat \<leftarrow> categories d, mapping_category_id acc = Some (cat_id cat),
                 rt_company_id rt = p_company_id,
                 rt_date rt \<ge> p_period_start,
                 rt_date rt \<le> p_period_end,
                 canonical_type cat = ty]"

definition pl_totals :: "db \<Rightarrow> uuid \<Rightarrow> date \<Rightarrow> date \<Rightarrow> jsonb" where
  "pl_totals d p_company_id p_period_start p_period_end =
     [(''revenue'', sum_by_canonical_type d p_company_id p_period_start p_period_end ''revenue''),
      (''cogs'', sum_by_canonical_type d p_company_id p_period_start p_period_end ''cogs''),
      (''opex'', sum_by_canonical_type d p_company_id p_period_start p_period_end ''opex'')]"

text \<open>The three cash-flow queries join \<^verbatim>\<open>raw_transactions\<close> with \<^verbatim>\<open>accounts\<close> only and differ
  in the list of account types.\<close>

definition sum_by_account_type :: "db \<Rightarrow> uuid \<Rightarrow> date \<Rightarrow> date \<Rightarrow> string list \<Rightarrow> numeric" where
  "sum_by_account_type d p_company_id p_period_start p_period_end tys =
     sum_list [rt_amount rt.
                 rt \<leftarrow> raw_transactions d,
                 acc \<leftarrow> accounts d, rt_account_id rt = Some (acc_id acc),
                 rt_company_id rt = p_company_id,
                 rt_date rt \<ge> p_period_start,
                 rt_date rt \<le> p_period_end,
                 acc_type acc \<in> set tys]"

definition operating_types :: "string list" where
  "operating_types = [''Income'', ''Expense'', ''Other Income'', ''Other Expense'', ''Cost of Goods Sold'']"

definition investing_types :: "string list" where
  "investing_types = [''Fixed Asset'', ''Other Asset'']"

definition financing_types :: "string list" where
  "financing_types = [''Long Term Liability'', ''Equity'']"

definition cash_flow_totals :: "db \<Rightarrow> uuid \<Rightarrow> date \<Rightarrow> date \<Rightarrow> jsonb" where
  "cash_flow_totals d p_company_id p_period_start p_period_end =
     [(''operating'', sum_by_account_type d p_company_id p_period_start p_period_end operating_types),
      (''investing'', sum_by_account_type d p_company_id p_period_start p_period_end investing_types),
      (''financing'', sum_by_account_type d p_company_id p_period_start p_period_end financing_types)]"

text \<open>
  \<^verbatim>\<open>INSERT ... ON CONFLICT (company_id, period_start) DO UPDATE\<close>: the row of the table with
  the key of the new row is updated in place and keeps its id; without such a row the
  new row is added. \<^verbatim>\<open>RETURNING id\<close> gives the id of the row written. An insert needs
  the company of the new row in \<^verbatim>\<open>companies\<close>. In the update, \<^verbatim>\<open>row_version + 1\<close> is
  \<^verbatim>\<open>NULL\<close> for a version that is \<^verbatim>\<open>NULL\<close>, and raises an exception when the sum does not
  fit the \<^verbatim>\<open>INTEGER\<close> column; the statement then changes nothing.
\<close>

definition same_key :: "uuid \<Rightarrow> date \<Rightarrow> monthly_row \<Rightarrow> bool" where
  "same_key cid s r = (mr_company_id r = cid \<and> period_start r = s)"

definition int4_plus_one :: "int option \<Rightarrow> error + int option" where
  "int4_plus_one x =
     (case x of
        None \<Rightarrow> Inr None
      | Some v \<Rightarrow>
          if v + 1 > 2147483647 then Inl (NumericValueOutOfRange ''integer out of range'')
          else Inr (Some (v + 1)))"

definition do_update :: "monthly_row \<Rightarrow> monthly_row \<Rightarrow> error + monthly_row" where
  "do_update excluded r =
     (case int4_plus_one (row_version r) of
        Inl err \<Rightarrow> Inl err
      | Inr v \<Rightarrow>
          Inr (r\<lparr>period_end := period_end excluded,
                 totals_by_account_type := totals_by_account_type excluded,
                 row_version := v,
                 generated_at := generated_at excluded,
                 source_run_id := source_run_id excluded\<rparr>))"

fun upsert_monthly :: "monthly_row \<Rightarrow> monthly_row list \<Rightarrow> error + uuid \<times> monthly_row list" where
  "upsert_monthly new [] = Inr (mr_id new, [new])"
| "upsert_monthly new (r # rs) =
     (if same_key (mr_company_id new) (period_start new) r
      then (case do_update new r of
              Inl err \<Rightarrow> Inl err
            | Inr r' \<Rightarrow> Inr (mr_id r, r' # rs))
      else (case upsert_monthly new rs of
              Inl err \<Rightarrow> Inl err
            | Inr (v_row_id, rs') \<Rightarrow> Inr (v_row_id, r # rs')))"

definition insert_on_conflict ::
  "uuid list \<Rightarrow> monthly_row \<Rightarrow> monthly_row list \<Rightarrow> error + uuid \<times> monthly_row list" where
  "insert_on_conflict comps new rows =
     (if \<not> list_ex (same_key (mr_company_id new) (period_start new)) rows
         \<and> mr_company_id new \<notin> set comps
      then Inl (ForeignKeyViolation ''company_id'')
      else upsert_monthly new rows)"

definition fn_generate_monthly_pl ::
  "db \<Rightarrow> uuid option \<Rightarrow> date option \<Rightarrow> date option \<Rightarrow> string option
     \<Rightarrow> timestamptz \<Rightarrow> uuid \<Rightarrow> (error + uuid) \<times> db" where
  "fn_generate_monthly_pl d p_company_id p_period_start p_period_end p_source_run_id now new_id =
     (case p_company_id of
        None \<Rightarrow> (Inl (InvalidArgument ''company_id cannot be NULL''), d)
      | Some cid \<Rightarrow>
     (case (p_period_start, p_period_end) of
        (Some s, Some e) \<Rightarrow>
          if s > e
          then (Inl (InvalidArgument ''period_start must be before or equal to period_end''), d)
          else
          (case p_source_run_id of
             None \<Rightarrow> (Inl (InvalidArgument ''source_run_id cannot be NULL or empty''), d)
           | Some run \<Rightarrow>
               if run = []
               then (Inl (InvalidArgument ''source_run_id cannot be NULL or empty''), d)
               else
               (case insert_on_conflict (companies d)
                       \<lparr>mr_id = new_id, mr_company_id = cid, period_start = s, period_end = e,
                        totals_by_account_type = pl_totals d cid s e, row_version = Some 1,
                        generated_at = Some now, source_run_id = run\<rparr>
                       (monthly_pl d) of
                  Inl err \<Rightarrow> (Inl err, d)
                | Inr (v_row_id, rows) \<Rightarrow> (Inr v_row_id, d\<lparr>monthly_pl := rows\<rparr>)))
      | _ \<Rightarrow> (Inl (InvalidArgument ''period_start and period_end cannot be NULL''), d)))"

definition fn_generate_monthly_cash_flow ::
  "db \<Rightarrow> uuid option \<Rightarrow> date option \<Rightarrow> date option \<Rightarrow> string option
     \<Rightarrow> timestamptz \<Rightarrow> uuid \<Rightarrow> (error + uuid) \<times> db" where
  "fn_generate_monthly_cash_flow d p_company_id p_period_start p_period_end p_source_run_id
       now new_id =
     (case p_company_id of
        None \<Rightarrow> (Inl (InvalidArgument ''company_id cannot be NULL''), d)
      | Some cid \<Rightarrow>
     (case (p_period_start, p_period_end) of
        (Some s, Some e) \<Rightarrow>
          if s > e
          then (Inl (InvalidArgument ''period_start must be before or equal to period_end''), d)
          else
          (case p_source_run_id of
             None \<Rightarrow> (Inl (InvalidArgument ''source_run_id cannot be NULL or empty''), d)
           | Some run \<Rightarrow>
               if run = []
               then (Inl (InvalidArgument ''source_run_id cannot be NULL or empty''), d)
               else
               (case insert_on_conflict (companies d)
                       \<lparr>mr_id = new_id, mr_company_id = cid, period_start = s, period_end = e,
                        totals_by_account_type = cash_flow_totals d cid s e, row_version = Some 1,
                        generated_at = Some now, source_run_id = run\<rparr>
                       (monthly_cash_flow d) of
                  Inl err \<Rightarrow> (Inl err, d)
                | Inr (v_row_id, rows) \<Rightarrow> (Inr v_row_id, d\<lparr>monthly_cash_flow := rows\<rparr>)))
      | _ \<Rightarrow> (Inl (InvalidArgument ''period_start and period_end cannot be NULL''), d)))"

subsection \<open>The totals in the words of the specification\<close>

text \<open>
  For comparison with the joins above: the account that a transaction refers to, the
  category that this account is mapped to, and the sum of the amounts of the
  transactions of the company in the period that fall in a class: by the canonical
  type of the category for P\&L, by the type of the account for cash flow.
\<close>

definition account_of :: "db \<Rightarrow> raw_transaction \<Rightarrow> account option" where
  "account_of d rt =
     (case rt_account_id rt of
        None \<Rightarrow> None
      | Some a \<Rightarrow> find (\<lambda>acc. acc_id acc = a) (accounts d))"

definition category_of :: "db \<Rightarrow> raw_transaction \<Rightarrow> category option" where
  "category_of d rt =
     (case account_of d rt of
        None \<Rightarrow> None
      | Some acc \<Rightarrow>
          (case mapping_category_id acc of
             None \<Rightarrow> None
           | Some k \<Rightarrow> find (\<lambda>c. cat_id c = k) (categories d)))"

definition in_period :: "uuid \<Rightarrow> date \<Rightarrow> date \<Rightarrow> raw_transaction \<Rightarrow> bool" where
  "in_period cid s e rt = (rt_company_id rt = cid \<and> s \<le> rt_date rt \<and> rt_date rt \<le> e)"

definition spec_pl_sum :: "db \<Rightarrow> uuid \<Rightarrow> date \<Rightarrow> date \<Rightarrow> string \<Rightarrow> numeric" where
  "spec_pl_sum d cid s e ty =
     sum_list (map rt_amount
       (filter (\<lambda>rt. in_period cid s e rt
                    \<and> map_option canonical_type (category_of d rt) = Some ty)
          (raw_transactions d)))"

definition spec_cash_flow_sum :: "db \<Rightarrow> uuid \<Rightarrow> date \<Rightarrow> date \<Rightarrow> string list \<Rightarrow> numeric" where
  "spec_cash_flow_sum d cid s e tys =
     sum_list (map rt_amount
       (filter (\<lambda>rt. in_period cid s e rt
                    \<and> (case account_of d rt of None \<Rightarrow> False | Some acc \<Rightarrow> acc_type acc \<in> set tys))
          (raw_transactions d)))"

text \<open>The key of a row, the rows of a table under a key, and a row whose version
  can be raised by one: it is \<^verbatim>\<open>NULL\<close> or below the greatest \<^verbatim>\<open>INTEGER\<close>.\<close>

definition row_key :: "monthly_row \<Rightarrow> uuid \<times> date" where
  "row_key r = (mr_company_id r, period_start r)"

definition rows_for :: "uuid \<Rightarrow> date \<Rightarrow> monthly_row list \<Rightarrow> monthly_row list" where
  "rows_for cid s rows = filter (same_key cid s) rows"

definition version_can_grow :: "monthly_row \<Rightarrow> bool" where
  "version_can_grow r = (case row_version r of None \<Rightarrow> True | Some v \<Rightarrow> v < 2147483647)"

text \<open>The update of a row and the upsert of a table when no exception is raised.\<close>

definition updated_row :: "monthly_row \<Rightarrow> monthly_row \<Rightarrow> monthly_row" where
  "updated_row excluded r =
     r\<lparr>period_end := period_end excluded,
       totals_by_account_type := totals_by_account_type excluded,
       row_version := map_option (\<lambda>v. v + 1) (row_version r),
       generated_at := generated_at excluded,
       source_run_id := source_run_id excluded\<rparr>"

fun upsert_rows :: "monthly_row \<Rightarrow> monthly_row list \<Rightarrow> uuid \<times> monthly_row list" where
  "upsert_rows new [] = (mr_id new, [new])"
| "upsert_rows new (r # rs) =
     (if same_key (mr_company_id new) (period_start new) r
      then (mr_id r, updated_row new r # rs)
      else (case upsert_rows new rs of (v_row_id, rs') \<Rightarrow> (v_row_id, r # rs')))"

text \<open>The row that a first write inserts, and the row that is found under the key
  after a write that succeeds.\<close>

definition new_row ::
  "uuid \<Rightarrow> uuid \<Rightarrow> date \<Rightarrow> date \<Rightarrow> jsonb \<Rightarrow> timestamptz \<Rightarrow> string \<Rightarrow> monthly_row" where
  "new_row new_id cid s e totals now run =
     \<lparr>mr_id = new_id, mr_company_id = cid, period_start = s, period_end = e,
      totals_by_account_type = totals, row_version = Some 1, generated_at = Some now,
      source_run_id = run\<rparr>"

definition written_row ::
  "monthly_row list \<Rightarrow> uuid \<Rightarrow> uuid \<Rightarrow> date \<Rightarrow> date \<Rightarrow> jsonb \<Rightarrow> timestamptz \<Rightarrow> string
     \<Rightarrow> monthly_row" where
  "written_row rows new_id cid s e totals now run =
     (case rows_for cid s rows of
        [] \<Rightarrow> new_row new_id cid s e totals now run
      | r # _ \<Rightarrow> r\<lparr>period_end := e, totals_by_account_type := totals,
                   row_version := map_option (\<lambda>v. v + 1) (row_version r),
                   generated_at := Some now, source_run_id := run\<rparr>)"

section \<open>Projection: fn\_generate\_projection\<close>

text \<open>
  After the two checks of its argument the function runs the history query

  \<^verbatim>\<open>SELECT AVG(...), AVG(...), COUNT(*) INTO ... FROM monthly_pl WHERE ... ORDER BY period_start DESC LIMIT 6\<close>

  Its select list holds aggregates only and there is no \<^verbatim>\<open>GROUP BY\<close>, so that the
  column \<^verbatim>\<open>period_start\<close> of its \<^verbatim>\<open>ORDER BY\<close> is neither grouped nor aggregated. PostgreSQL
  refuses such a statement when it analyses it, before any row is read: the first
  execution raises the exception, whatever the tables and the date are. Every call
  for a company that exists reaches the statement, so that the statements after it
  (the return of 0 for a count of 0 and the twelve upserts) are never run: a call
  ends in one of the three exceptions and writes nothing.
\<close>

definition history_query_error :: error where
  "history_query_error =
     GroupingError ''column monthly_pl.period_start must appear in the GROUP BY clause or be used in an aggregate function''"

definition fn_generate_projection :: "db \<Rightarrow> uuid option \<Rightarrow> (error + int) \<times> db" where
  "fn_generate_projection d p_company_id =
     (case p_company_id of
        None \<Rightarrow> (Inl (InvalidArgument ''company_id cannot be NULL''), d)
      | Some cid \<Rightarrow>
          if cid \<notin> set (companies d)
          then (Inl (NotFound ''Company does not exist''), d)
          else (Inl history_query_error, d))"

subsection \<open>The history in the words of the specification\<close>

text \<open>
  Dates. \<^verbatim>\<open>DATE_TRUNC('month', d)\<close> is the first day of the month of \<open>d\<close>; adding an
  interval of \<open>k\<close> months moves the month and keeps the day, cut to the last day of
  the month reached.
\<close>

definition date_trunc_month :: "date \<Rightarrow> date" where
  "date_trunc_month dt = (case dt of (y, m, _) \<Rightarrow> (y, m, 1))"

definition leap_year :: "int \<Rightarrow> bool" where
  "leap_year y = (y mod 4 = 0 \<and> (y mod 100 \<noteq> 0 \<or> y mod 400 = 0))"

definition days_in_month :: "int \<Rightarrow> int \<Rightarrow> int" where
  "days_in_month y m =
     (if m = 2 then (if leap_year y then 29 else 28)
      else if m = 4 \<or> m = 6 \<or> m = 9 \<or> m = 11 then 30
      else 31)"

definition add_months :: "date \<Rightarrow> int \<Rightarrow> date" where
  "add_months dt k =
     (case dt of (y, m, day) \<Rightarrow>
        (let idx = y * 12 + (m - 1) + k; y' = idx div 12; m' = idx mod 12 + 1
         in (y', m', min day (days_in_month y' m'))))"

text \<open>
  What the specification has in place of the query: the rows of the company whose
  period starts in the six months before the current month, the most recent first,
  at most six of them; their number is the count of months used, and the base
  averages are the means of their revenue fields and of their costs.
\<close>

definition spec_history_rows :: "db \<Rightarrow> uuid \<Rightarrow> date \<Rightarrow> monthly_row list" where
  "spec_history_rows d p_company_id current_date =
     take 6 (rev (sort_key period_start
       (filter (\<lambda>r. mr_company_id r = p_company_id
                 \<and> period_start r \<ge> add_months (date_trunc_month current_date) (- 6)
                 \<and> period_start r < date_trunc_month current_date)
          (monthly_pl d))))"

definition spec_revenue :: "monthly_row \<Rightarrow> numeric option" where
  "spec_revenue r = map_of (totals_by_account_type r) ''revenue''"

definition spec_costs :: "monthly_row \<Rightarrow> numeric" where
  "spec_costs r =
     (case map_of (totals_by_account_type r) ''cogs'' of None \<Rightarrow> 0 | Some x \<Rightarrow> x)
     + (case map_of (totals_by_account_type r) ''opex'' of None \<Rightarrow> 0 | Some x \<Rightarrow> x)"

section \<open>Example data\<close>

text \<open>A catalog with the six seeded categories, each with a few of its seeded examples,
  and two companies with their accounts.\<close>

definition cat_revenue :: category where
  "cat_revenue = \<lparr>cat_id = 1, cat_name = ''Revenue'', canonical_type = ''revenue'',
     source_examples = Some [Some ''Income'', Some ''Sales'', Some ''Service Revenue'']\<rparr>"

definition cat_cogs :: category where
  "cat_cogs = \<lparr>cat_id = 2, cat_name = ''Cost of Goods Sold'', canonical_type = ''cogs'',
     source_examples = Some [Some ''COGS'', Some ''Cost of Sales'']\<rparr>"

definition cat_opex :: category where
  "cat_opex = \<lparr>cat_id = 3, cat_name = ''Operating Expenses'', canonical_type = ''opex'',
     source_examples = Some [Some ''Rent'', Some ''Salaries'']\<rparr>"

definition cat_asset :: category where
  "cat_asset = \<lparr>cat_id = 4, cat_name = ''Assets'', canonical_type = ''asset'',
     source_examples = Some [Some ''Cash'', Some ''A/R'']\<rparr>"

definition cat_liability :: category where
  "cat_liability = \<lparr>cat_id = 5, cat_name = ''Liabilities'', canonical_type = ''liability'',
     source_examples = Some [Some ''Accounts Payable'', Some ''A/P'']\<rparr>"

definition cat_equity :: category where
  "cat_equity = \<lparr>cat_id = 6, cat_name = ''Equity'', canonical_type = ''equity'',
     source_examples = Some [Some ''Retained Earnings'']\<rparr>"

definition demo_categories :: "category list" where
  "demo_categories = [cat_revenue, cat_cogs, cat_opex, cat_asset, cat_liability, cat_equity]"

definition acct_cost_of_sales :: account where
  "acct_cost_of_sales = \<lparr>acc_id = 10, acc_company_id = 1, acc_name = ''COST OF SALES'',
     acc_type = ''Cost of Goods Sold'', mapping_category_id = None\<rparr>"

definition acct_office_rent :: account where
  "acct_office_rent = \<lparr>acc_id = 11, acc_company_id = 1, acc_name = ''Office Rent'',
     acc_type = ''Expense'', mapping_category_id = Some 1\<rparr>"

definition acct_petty :: account where
  "acct_petty = \<lparr>acc_id = 12, acc_company_id = 1, acc_name = ''Petty'',
     acc_type = ''Bank'', mapping_category_id = None\<rparr>"

definition acct_a_r :: account where
  "acct_a_r = \<lparr>acc_id = 13, acc_company_id = 1, acc_name = ''A_R'',
     acc_type = ''Income'', mapping_category_id = None\<rparr>"

definition acct_other_company :: account where
  "acct_other_company = \<lparr>acc_id = 20, acc_company_id = 2, acc_name = ''Sales'',
     acc_type = ''Income'', mapping_category_id = None\<rparr>"

definition demo_accounts :: "account list" where
  "demo_accounts = [acct_cost_of_sales, acct_office_rent, acct_petty, acct_a_r, acct_other_company]"

definition demo_db :: db where
  "demo_db = \<lparr>companies = [1, 2], categories = demo_categories, accounts = demo_accounts,
     raw_transactions = [], monthly_pl = [], monthly_cash_flow = [], projections_12m = []\<rparr>"

definition demo_db_no_asset :: db where
  "demo_db_no_asset = demo_db\<lparr>categories := [cat_revenue, cat_cogs]\<rparr>"

definition demo_db_no_catalog :: db where
  "demo_db_no_catalog =
     demo_db\<lparr>categories := [],
             accounts := map (\<lambda>a. a\<lparr>mapping_category_id := None\<rparr>) demo_accounts\<rparr>"

text \<open>A category whose array of examples is \<^verbatim>\<open>NULL\<close>, and the catalog with this category
  in front of the six others.\<close>

definition cat_unlabelled :: category where
  "cat_unlabelled = \<lparr>cat_id = 7, cat_name = ''Unlabelled'', canonical_type = ''opex'',
     source_examples = None\<rparr>"

definition null_examples_db :: db where
  "null_examples_db = demo_db\<lparr>categories := cat_unlabelled # demo_categories\<rparr>"

text \<open>The catalog with that category alone; no account is mapped.\<close>

definition unlabelled_only_db :: db where
  "unlabelled_only_db = demo_db_no_catalog\<lparr>categories := [cat_unlabelled]\<rparr>"

text \<open>A ledger for company 1: accounts mapped to the categories of the catalog, one
  unmapped account, and transactions in and around January 2025.\<close>

definition ledger_accounts :: "account list" where
  "ledger_accounts =
     [\<lparr>acc_id = 30, acc_company_id = 1, acc_name = ''Sales'', acc_type = ''Income'',
       mapping_category_id = Some 1\<rparr>,
      \<lparr>acc_id = 31, acc_company_id = 1, acc_name = ''Materials'',
       acc_type = ''Cost of Goods Sold'', mapping_category_id = Some 2\<rparr>,
      \<lparr>acc_id = 32, acc_company_id = 1, acc_name = ''Rent'', acc_type = ''Expense'',
       mapping_category_id = Some 3\<rparr>,
      \<lparr>acc_id = 33, acc_company_id = 1, acc_name = ''Checking'', acc_type = ''Bank'',
       mapping_category_id = Some 4\<rparr>,
      \<lparr>acc_id = 34, acc_company_id = 1, acc_name = ''Suspense'', acc_type = ''Expense'',
       mapping_category_id = None\<rparr>,
      \<lparr>acc_id = 35, acc_company_id = 1, acc_name = ''Equipment'', acc_type = ''Fixed Asset'',
       mapping_category_id = Some 4\<rparr>,
      \<lparr>acc_id = 36, acc_company_id = 1, acc_name = ''Loan'',
       acc_type = ''Long Term Liability'', mapping_category_id = Some 5\<rparr>]"

definition ledger_transactions :: "raw_transaction list" where
  "ledger_transactions =
     [\<lparr>rt_id = 1, rt_company_id = 1, rt_date = (2025, 1, 10), rt_amount = 100,
       rt_account_id = Some 30\<rparr>,
      \<lparr>rt_id = 2, rt_company_id = 1, rt_date = (2025, 1, 15), rt_amount = - 30,
       rt_account_id = Some 31\<rparr>,
      \<lparr>rt_id = 3, rt_company_id = 1, rt_date = (2025, 1, 20), rt_amount = - 20,
       rt_account_id = Some 32\<rparr>,
      \<lparr>rt_id = 4, rt_company_id = 1, rt_date = (2025, 1, 25), rt_amount = 500,
       rt_account_id = Some 33\<rparr>,
      \<lparr>rt_id = 5, rt_company_id = 1, rt_date = (2025, 1, 26), rt_amount = - 7,
       rt_account_id = Some 34\<rparr>,
      \<lparr>rt_id = 6, rt_company_id = 1, rt_date = (2025, 1, 27), rt_amount = 40,
       rt_account_id = None\<rparr>,
      \<lparr>rt_id = 7, rt_company_id = 1, rt_date = (2025, 2, 1), rt_amount = 999,
       rt_account_id = Some 30\<rparr>,
      \<lparr>rt_id = 8, rt_company_id = 2, rt_date = (2025, 1, 10), rt_amount = 55,
       rt_account_id = Some 30\<rparr>,
      \<lparr>rt_id = 9, rt_company_id = 1, rt_date = (2025, 1, 28), rt_amount = - 250,
       rt_account_id = Some 35\<rparr>,
      \<lparr>rt_id = 10, rt_company_id = 1, rt_date = (2025, 1, 29), rt_amount = 1000,
       rt_account_id = Some 36\<rparr>]"

definition ledger_db :: db where
  "ledger_db = \<lparr>companies = [1, 2], categories = demo_categories, accounts = ledger_accounts,
     raw_transactions = ledger_transactions, monthly_pl = [], monthly_cash_flow = [],
     projections_12m = []\<rparr>"

text \<open>
  P\&L history of company 1, each row with cogs 400 and opex 200: the months January
  to June 2025 with revenues of mean 1000. Company 2 has no history.
  Then a history around the window of July 2025: for company 1 the same six months,
  a row for December 2024, a period that starts on 15 June 2025 and a row for July
  2025; for company 2 a row for December 2024 and a row for January 2025.
\<close>

definition pl_row :: "uuid \<Rightarrow> date \<Rightarrow> numeric \<Rightarrow> monthly_row" where
  "pl_row i s amount =
     \<lparr>mr_id = i, mr_company_id = 1, period_start = s, period_end = s,
      totals_by_account_type = [(''revenue'', amount), (''cogs'', 400), (''opex'', 200)],
      row_version = Some 1, generated_at = Some 0, source_run_id = ''run-1''\<rparr>"

definition six_months :: "monthly_row list" where
  "six_months =
     [pl_row 101 (2025, 1, 1) 900, pl_row 102 (2025, 2, 1) 950, pl_row 103 (2025, 3, 1) 1000,
      pl_row 104 (2025, 4, 1) 1000, pl_row 105 (2025, 5, 1) 1050, pl_row 106 (2025, 6, 1) 1100]"

definition history_db :: db where
  "history_db = demo_db\<lparr>monthly_pl := six_months\<rparr>"

definition window_db :: db where
  "window_db =
     demo_db\<lparr>monthly_pl :=
       pl_row 100 (2024, 12, 1) 5000 # six_months
       @ [pl_row 107 (2025, 6, 15) 1500, pl_row 108 (2025, 7, 1) 100,
          (pl_row 201 (2024, 12, 1) 700)\<lparr>mr_company_id := 2\<rparr>,
          (pl_row 202 (2025, 1, 1) 800)\<lparr>mr_company_id := 2\<rparr>]\<rparr>"




lemmas demo_defs =
  cat_revenue_def cat_cogs_def cat_opex_def cat_asset_def cat_liability_def cat_equity_def
  demo_categories_def acct_cost_of_sales_def acct_office_rent_def acct_petty_def acct_a_r_def
  acct_other_company_def demo_accounts_def demo_db_def

section \<open>Properties of the account mapping\<close>

lemma set_non_null [simp]: "x \<in> set (non_null es) \<longleftrightarrow> Some x \<in> set es"
  by (induction es) (auto simp: non_null_def split: option.splits)

lemma non_null_Cons [simp]:
  "non_null (None # es) = non_null es" "non_null (Some x # es) = x # non_null es"
  "non_null [] = []"
  by (simp_all add: non_null_def)

lemma exact_in_examples_iff:
  "exact_in_examples n es \<longleftrightarrow> (\<exists>e. Some e \<in> set es \<and> lower n = lower e)"
  by (induction es) (auto split: option.splits)

lemma has_exact_example_iff:
  "has_exact_example n c \<longleftrightarrow> (\<exists>es. source_examples c = Some es \<and> exact_in_examples n es)"
proof (cases "source_examples c")
  case None
  then show ?thesis by (simp add: has_exact_example_def labels_def)
next
  case (Some es)
  then show ?thesis
    by (auto simp: has_exact_example_def labels_def list_ex_iff exact_in_examples_iff)
qed

lemma exact_match_loop_first:
  "list_all (\<lambda>c'. source_examples c' \<noteq> None \<and> \<not> has_exact_example n c') pre \<Longrightarrow>
   has_exact_example n c \<Longrightarrow>
   exact_match_loop n (pre @ c # post) = Inr (Some (cat_id c), 100)"
  by (induction pre) (auto simp: has_exact_example_iff)

lemma find_set_mapping:
  "find (\<lambda>r. acc_id r = aid) rows = Some a \<Longrightarrow>
   find (\<lambda>r. acc_id r = aid) (set_mapping aid v rows) = Some (a\<lparr>mapping_category_id := v\<rparr>)"
  by (induction rows) (auto simp: set_mapping_def)

text \<open>
  C3, with the restriction that the code needs. An account whose name equals, up to
  case, an example of some category is mapped to the first category of the catalog
  that has such an example, when no category before it has \<^verbatim>\<open>NULL\<close> for its array of
  examples: the categories before it have no such example, the categories after it
  are not looked at, and no partial match in another category matters. The score is
  100, the category id is returned and stored in the account's row.
\<close>

theorem exact_match_wins:
  assumes acc: "find (\<lambda>r. acc_id r = aid) (accounts d) = Some a"
      and cat: "categories d = pre @ c # post"
      and pre: "list_all (\<lambda>c'. source_examples c' \<noteq> None
                              \<and> \<not> has_exact_example (acc_name a) c') pre"
      and hit: "has_exact_example (acc_name a) c"
  shows "best_match (categories d) (acc_name a) = Inr (Some (cat_id c), 100)
       \<and> fst (fn_map_account_to_category d aid) = Inr (Some (cat_id c))
       \<and> snd (fn_map_account_to_category d aid)
           = d\<lparr>accounts := set_mapping aid (Some (cat_id c)) (accounts d)\<rparr>
       \<and> find (\<lambda>r. acc_id r = aid) (accounts (snd (fn_map_account_to_category d aid)))
           = Some (a\<lparr>mapping_category_id := Some (cat_id c)\<rparr>)"
proof -
  have e: "exact_match_loop (acc_name a) (categories d) = Inr (Some (cat_id c), 100)"
    unfolding cat using pre hit by (rule exact_match_loop_first)
  then have b: "best_match (categories d) (acc_name a) = Inr (Some (cat_id c), 100)"
    by (simp add: best_match_def)
  then have r: "resolve_category (categories d) (acc_name a) (acc_type a) = Inr (Some (cat_id c))"
    by (simp add: resolve_category_def)
  show ?thesis
    using acc b r find_set_mapping [OF acc]
    by (simp add: fn_map_account_to_category_def)
qed

text \<open>The account ``COST OF SALES'' equals an example of the second category; the first
  category has the partial match ``Sales''.\<close>

theorem exact_match_wins_witness:
  "sql_like (lower ''COST OF SALES'') (contains_pattern (lower ''Sales''))
   \<and> fst (fn_map_account_to_category demo_db 10) = Inr (Some 2)
   \<and> find (\<lambda>r. acc_id r = 10) (accounts (snd (fn_map_account_to_category demo_db 10)))
       = Some (acct_cost_of_sales\<lparr>mapping_category_id := Some 2\<rparr>)"
proof -
  have acc: "find (\<lambda>r. acc_id r = 10) (accounts demo_db) = Some acct_cost_of_sales"
    by (simp add: demo_defs)
  have cat: "categories demo_db
      = [cat_revenue] @ cat_cogs # [cat_opex, cat_asset, cat_liability, cat_equity]"
    by (simp add: demo_db_def demo_categories_def)
  have pre: "list_all (\<lambda>c'. source_examples c' \<noteq> None
                \<and> \<not> has_exact_example (acc_name acct_cost_of_sales) c') [cat_revenue]"
    by code_simp
  have hit: "has_exact_example (acc_name acct_cost_of_sales) cat_cogs"
    by code_simp
  have fuzzy: "sql_like (lower ''COST OF SALES'') (contains_pattern (lower ''Sales''))"
    by code_simp
  have id: "cat_id cat_cogs = 2"
    by (simp add: cat_cogs_def)
  from exact_match_wins [OF acc cat pre hit]
  have "fst (fn_map_account_to_category demo_db 10) = Inr (Some (cat_id cat_cogs))"
    and "find (\<lambda>r. acc_id r = 10) (accounts (snd (fn_map_account_to_category demo_db 10)))
       = Some (acct_cost_of_sales\<lparr>mapping_category_id := Some (cat_id cat_cogs)\<rparr>)"
    by blast+
  then show ?thesis
    unfolding id using fuzzy by blast
qed

text \<open>A category without array before the first exact match: the exception of
  \<^verbatim>\<open>FOREACH\<close> is raised there and nothing is stored.\<close>

lemma exact_match_loop_null_first:
  "list_all (\<lambda>c'. source_examples c' \<noteq> None \<and> \<not> has_exact_example n c') pre \<Longrightarrow>
   source_examples c = None \<Longrightarrow>
   exact_match_loop n (pre @ c # post)
     = Inl (NullValueNotAllowed ''FOREACH expression must not be null'')"
  by (induction pre) (auto simp: has_exact_example_iff)

lemma fn_map_account_to_category_null_first:
  assumes acc: "find (\<lambda>r. acc_id r = aid) (accounts d) = Some a"
      and cat: "categories d = pre @ c # post"
      and pre: "list_all (\<lambda>c'. source_examples c' \<noteq> None
                              \<and> \<not> has_exact_example (acc_name a) c') pre"
      and null: "source_examples c = None"
  shows "fn_map_account_to_category d aid
       = (Inl (NullValueNotAllowed ''FOREACH expression must not be null''), d)"
proof -
  have "exact_match_loop (acc_name a) (categories d)
      = Inl (NullValueNotAllowed ''FOREACH expression must not be null'')"
    unfolding cat using pre null by (rule exact_match_loop_null_first)
  then have "resolve_category (categories d) (acc_name a) (acc_type a)
      = Inl (NullValueNotAllowed ''FOREACH expression must not be null'')"
    by (simp add: resolve_category_def best_match_def)
  then show ?thesis
    using acc by (simp add: fn_map_account_to_category_def)
qed

text \<open>
  Without the restriction the statement fails. In the catalog that starts with the
  category without array, the account ``COST OF SALES'' still equals an example of
  the category with id 2, which is the first category with such an example: the
  function raises the exception of \<^verbatim>\<open>FOREACH\<close> at the first category and stores
  nothing.
\<close>

theorem exact_match_after_null_examples:
  "find (\<lambda>r. acc_id r = 10) (accounts null_examples_db) = Some acct_cost_of_sales
   \<and> map cat_id (categories null_examples_db) = [7, 1, 2, 3, 4, 5, 6]
   \<and> map (has_exact_example (acc_name acct_cost_of_sales)) (categories null_examples_db)
       = [False, False, True, False, False, False, False]
   \<and> map (\<lambda>c. source_examples c = None) (categories null_examples_db)
       = [True, False, False, False, False, False, False]
   \<and> fn_map_account_to_category null_examples_db 10
       = (Inl (NullValueNotAllowed ''FOREACH expression must not be null''), null_examples_db)"
proof (intro conjI)
  show "find (\<lambda>r. acc_id r = 10) (accounts null_examples_db) = Some acct_cost_of_sales"
    by (simp add: demo_defs null_examples_db_def)
  show "map cat_id (categories null_examples_db) = [7, 1, 2, 3, 4, 5, 6]"
    by code_simp
  show "map (has_exact_example (acc_name acct_cost_of_sales)) (categories null_examples_db)
       = [False, False, True, False, False, False, False]"
    by code_simp
  show "map (\<lambda>c. source_examples c = None) (categories null_examples_db)
       = [True, False, False, False, False, False, False]"
    by code_simp
  show "fn_map_account_to_category null_examples_db 10
       = (Inl (NullValueNotAllowed ''FOREACH expression must not be null''), null_examples_db)"
    by (simp add: fn_map_account_to_category_def null_examples_db_def demo_defs
          cat_unlabelled_def resolve_category_def best_match_def)
qed


lemma exact_match_loop_scored:
  "exact_match_loop n cs = Inr b \<Longrightarrow> set cs \<subseteq> set cats \<Longrightarrow> scored_in cats b"
  by (induction cs) (auto simp: scored_in_def split: option.splits if_splits)

lemma fuzzy_match_loop_scored:
  "fuzzy_match_loop n cs best = Inr b \<Longrightarrow> set cs \<subseteq> set cats \<Longrightarrow> scored_in cats best \<Longrightarrow>
   scored_in cats b"
proof (induction cs arbitrary: best)
  case Nil
  then show ?case by simp
next
  case (Cons c cs)
  obtain b0 s where best: "best = (b0, s)" by (cases best)
  from Cons.prems(1) obtain es where es: "source_examples c = Some es"
    by (cases "source_examples c") (simp_all add: best)
  show ?case
  proof (cases "fuzzy_examples n es 0 > s")
    case True
    have "scored_in cats (Some (cat_id c), fuzzy_examples n es 0)"
      using True Cons.prems by (auto simp: scored_in_def best)
    moreover have "fuzzy_match_loop n cs (Some (cat_id c), fuzzy_examples n es 0) = Inr b"
      using Cons.prems(1) True by (simp add: best es)
    ultimately show ?thesis using Cons.IH Cons.prems(2) by simp
  next
    case False
    then have "fuzzy_match_loop n cs (b0, s) = Inr b"
      using Cons.prems(1) by (simp add: best es)
    then show ?thesis using Cons.IH Cons.prems(2,3) by (simp add: best)
  qed
qed

lemma best_match_scored: "best_match cats n = Inr b \<Longrightarrow> scored_in cats b"
proof -
  assume b: "best_match cats n = Inr b"
  then obtain b0 where b0: "exact_match_loop n cats = Inr b0"
    by (cases "exact_match_loop n cats") (simp_all add: best_match_def)
  have s0: "scored_in cats b0"
    using exact_match_loop_scored [OF b0] by simp
  show ?thesis
  proof (cases "snd b0 < 100")
    case True
    then have "fuzzy_match_loop n cats b0 = Inr b"
      using b by (simp add: best_match_def b0)
    from fuzzy_match_loop_scored [OF this _ s0] show ?thesis by simp
  next
    case False
    then show ?thesis using b s0 by (simp add: best_match_def b0)
  qed
qed

text \<open>Without an array that is \<^verbatim>\<open>NULL\<close> neither stage raises, and an exception of
  either stage is the one of \<^verbatim>\<open>FOREACH\<close>, raised at such an array.\<close>

lemma exact_match_loop_returns:
  "examples_not_null cs \<Longrightarrow> \<exists>b. exact_match_loop n cs = Inr b"
  by (induction cs) (auto simp: examples_not_null_def)

lemma fuzzy_match_loop_returns:
  "examples_not_null cs \<Longrightarrow> \<exists>b. fuzzy_match_loop n cs best = Inr b"
proof (induction cs arbitrary: best)
  case Nil
  then show ?case by simp
next
  case (Cons c cs)
  obtain b0 s where best: "best = (b0, s)" by (cases best)
  from Cons.prems obtain es where es: "source_examples c = Some es"
    and rest: "examples_not_null cs"
    by (auto simp: examples_not_null_def)
  show ?case
    using Cons.IH [OF rest] by (simp add: best es Let_def)
qed

lemma best_match_returns:
  assumes "examples_not_null cats"
  shows "\<exists>b. best_match cats n = Inr b"
proof -
  from exact_match_loop_returns [OF assms] obtain b0 where "exact_match_loop n cats = Inr b0"
    by blast
  then show ?thesis
    using fuzzy_match_loop_returns [OF assms, of n b0] by (auto simp: best_match_def)
qed

lemma exact_match_loop_raises:
  "exact_match_loop n cs = Inl err \<Longrightarrow>
   err = NullValueNotAllowed ''FOREACH expression must not be null'' \<and> \<not> examples_not_null cs"
  by (induction cs) (auto simp: examples_not_null_def split: option.splits if_splits)

lemma fuzzy_match_loop_raises:
  "fuzzy_match_loop n cs best = Inl err \<Longrightarrow>
   err = NullValueNotAllowed ''FOREACH expression must not be null'' \<and> \<not> examples_not_null cs"
proof (induction cs arbitrary: best)
  case Nil
  then show ?case by simp
next
  case (Cons c cs)
  obtain b0 s where best: "best = (b0, s)" by (cases best)
  show ?case
  proof (cases "source_examples c")
    case None
    then show ?thesis using Cons.prems by (simp add: best examples_not_null_def)
  next
    case (Some es)
    then have "\<exists>best'. fuzzy_match_loop n cs best' = Inl err"
      using Cons.prems by (auto simp: best Let_def split: if_splits)
    then show ?thesis using Cons.IH by (auto simp: examples_not_null_def)
  qed
qed

lemma best_match_raises:
  "best_match cats n = Inl err \<Longrightarrow>
   err = NullValueNotAllowed ''FOREACH expression must not be null'' \<and> \<not> examples_not_null cats"
  using exact_match_loop_raises [of n cats err] fuzzy_match_loop_raises [of n cats _ err]
  by (auto simp: best_match_def split: sum.splits if_splits)

lemma resolve_category_raises:
  "resolve_category cats n t = Inl err \<Longrightarrow>
   err = NullValueNotAllowed ''FOREACH expression must not be null'' \<and> \<not> examples_not_null cats"
  using best_match_raises [of cats n err]
  by (auto simp: resolve_category_def split: sum.splits)

lemma fallback_canonical_type_range:
  "fallback_canonical_type t
     \<in> set [''revenue'', ''cogs'', ''opex'', ''asset'', ''liability'', ''equity'']"
  by (simp add: fallback_canonical_type_def)

lemma first_category_of_type_Some:
  "\<exists>c\<in>set cats. canonical_type c = ty \<Longrightarrow>
   \<exists>c\<in>set cats. first_category_of_type cats ty = Some (cat_id c)"
  by (induction cats) (auto simp: first_category_of_type_def)

lemma first_category_of_type_None:
  "\<not> (\<exists>c\<in>set cats. canonical_type c = ty) \<Longrightarrow> first_category_of_type cats ty = None"
  unfolding first_category_of_type_def by (simp add: find_None_iff)



lemma resolve_category_total:
  assumes types: "list_all (\<lambda>ty. \<exists>c\<in>set cats. canonical_type c = ty)
             [''revenue'', ''cogs'', ''opex'', ''asset'', ''liability'', ''equity'']"
      and nonnull: "examples_not_null cats"
  shows "\<exists>c\<in>set cats. resolve_category cats n t = Inr (Some (cat_id c))"
proof -
  from best_match_returns [OF nonnull] obtain b where b: "best_match cats n = Inr b"
    by blast
  show ?thesis
  proof (cases "snd b < 50")
    case True
    have "\<exists>c\<in>set cats. canonical_type c = fallback_canonical_type t"
      using types fallback_canonical_type_range [of t] by auto
    from first_category_of_type_Some [OF this] show ?thesis
      using True by (simp add: resolve_category_def b)
  next
    case False
    then show ?thesis using best_match_scored [OF b]
      by (auto simp: resolve_category_def b scored_in_def)
  qed
qed

lemma resolve_category_some:
  assumes types: "list_all (\<lambda>ty. \<exists>c\<in>set cats. canonical_type c = ty)
             [''revenue'', ''cogs'', ''opex'', ''asset'', ''liability'', ''equity'']"
      and returns: "resolve_category cats n t = Inr v"
  shows "\<exists>c\<in>set cats. v = Some (cat_id c)"
proof -
  from returns obtain b where b: "best_match cats n = Inr b"
    by (cases "best_match cats n") (simp_all add: resolve_category_def)
  show ?thesis
  proof (cases "snd b < 50")
    case True
    have "\<exists>c\<in>set cats. canonical_type c = fallback_canonical_type t"
      using types fallback_canonical_type_range [of t] by auto
    from first_category_of_type_Some [OF this] show ?thesis
      using True returns by (auto simp: resolve_category_def b)
  next
    case False
    then show ?thesis using best_match_scored [OF b] returns
      by (auto simp: resolve_category_def b scored_in_def)
  qed
qed

text \<open>
  C9, with the restriction that the code needs. For an account that exists: if the
  catalog has a category of each of the six canonical types and no category has
  \<^verbatim>\<open>NULL\<close> for its array of examples, the function returns the id of a category of the
  catalog, never \<^verbatim>\<open>NULL\<close>; whatever the arrays are, a call that raises nothing returns
  the id of a category of such a catalog. If both matching stages end without
  exception with a best score below 50 and the catalog has no category of the
  canonical type that the fallback selects, the function raises nothing: it returns
  \<^verbatim>\<open>NULL\<close> and stores \<^verbatim>\<open>NULL\<close> in the account's row. With an empty catalog this is the case for every account.
  The only exception that the function raises for an account that exists is the one
  of \<^verbatim>\<open>FOREACH\<close> at an array that is \<^verbatim>\<open>NULL\<close>, and then nothing is stored.
\<close>

theorem resolver_null_only_without_fallback_category:
  assumes acc: "find (\<lambda>r. acc_id r = aid) (accounts d) = Some a"
  shows "(list_all (\<lambda>ty. \<exists>c\<in>set (categories d). canonical_type c = ty)
            [''revenue'', ''cogs'', ''opex'', ''asset'', ''liability'', ''equity'']
          \<and> examples_not_null (categories d)
          \<longrightarrow> (\<exists>c\<in>set (categories d).
                 fst (fn_map_account_to_category d aid) = Inr (Some (cat_id c))))
       \<and> (list_all (\<lambda>ty. \<exists>c\<in>set (categories d). canonical_type c = ty)
            [''revenue'', ''cogs'', ''opex'', ''asset'', ''liability'', ''equity'']
          \<longrightarrow> (\<forall>v. fst (fn_map_account_to_category d aid) = Inr v
                 \<longrightarrow> (\<exists>c\<in>set (categories d). v = Some (cat_id c))))
       \<and> ((\<exists>b s. best_match (categories d) (acc_name a) = Inr (b, s) \<and> s < 50)
          \<and> \<not> (\<exists>c\<in>set (categories d). canonical_type c = fallback_canonical_type (acc_type a))
          \<longrightarrow> fn_map_account_to_category d aid
                = (Inr None, d\<lparr>accounts := set_mapping aid None (accounts d)\<rparr>)
            \<and> find (\<lambda>r. acc_id r = aid) (accounts (snd (fn_map_account_to_category d aid)))
                = Some (a\<lparr>mapping_category_id := None\<rparr>))
       \<and> (categories d = []
          \<longrightarrow> fn_map_account_to_category d aid
                = (Inr None, d\<lparr>accounts := set_mapping aid None (accounts d)\<rparr>))
       \<and> (\<forall>err. fst (fn_map_account_to_category d aid) = Inl err
          \<longrightarrow> err = NullValueNotAllowed ''FOREACH expression must not be null''
            \<and> \<not> examples_not_null (categories d)
            \<and> snd (fn_map_account_to_category d aid) = d)"
proof (intro conjI impI allI)
  assume "list_all (\<lambda>ty. \<exists>c\<in>set (categories d). canonical_type c = ty)
            [''revenue'', ''cogs'', ''opex'', ''asset'', ''liability'', ''equity'']
          \<and> examples_not_null (categories d)"
  then have types: "list_all (\<lambda>ty. \<exists>c\<in>set (categories d). canonical_type c = ty)
            [''revenue'', ''cogs'', ''opex'', ''asset'', ''liability'', ''equity'']"
    and nonnull: "examples_not_null (categories d)"
    by blast+
  from resolve_category_total [OF types nonnull, of "acc_name a" "acc_type a"]
  show "\<exists>c\<in>set (categories d). fst (fn_map_account_to_category d aid) = Inr (Some (cat_id c))"
    using acc by (auto simp: fn_map_account_to_category_def)
next
  fix v
  assume types: "list_all (\<lambda>ty. \<exists>c\<in>set (categories d). canonical_type c = ty)
            [''revenue'', ''cogs'', ''opex'', ''asset'', ''liability'', ''equity'']"
    and "fst (fn_map_account_to_category d aid) = Inr v"
  then have "resolve_category (categories d) (acc_name a) (acc_type a) = Inr v"
    using acc by (auto simp: fn_map_account_to_category_def split: sum.splits)
  from resolve_category_some [OF types this]
  show "\<exists>c\<in>set (categories d). v = Some (cat_id c)" .
next
  assume h: "(\<exists>b s. best_match (categories d) (acc_name a) = Inr (b, s) \<and> s < 50)
     \<and> \<not> (\<exists>c\<in>set (categories d). canonical_type c = fallback_canonical_type (acc_type a))"
  then have r: "resolve_category (categories d) (acc_name a) (acc_type a) = Inr None"
    by (auto simp: resolve_category_def first_category_of_type_None)
  show "fn_map_account_to_category d aid
          = (Inr None, d\<lparr>accounts := set_mapping aid None (accounts d)\<rparr>)"
    using acc r by (simp add: fn_map_account_to_category_def)
  then show "find (\<lambda>r. acc_id r = aid) (accounts (snd (fn_map_account_to_category d aid)))
                = Some (a\<lparr>mapping_category_id := None\<rparr>)"
    using find_set_mapping [OF acc] by simp
next
  assume "categories d = []"
  then have "resolve_category (categories d) (acc_name a) (acc_type a) = Inr None"
    by (simp add: resolve_category_def best_match_def first_category_of_type_def)
  then show "fn_map_account_to_category d aid
          = (Inr None, d\<lparr>accounts := set_mapping aid None (accounts d)\<rparr>)"
    using acc by (simp add: fn_map_account_to_category_def)
next
  fix err
  assume e: "fst (fn_map_account_to_category d aid) = Inl err"
  then have r: "resolve_category (categories d) (acc_name a) (acc_type a) = Inl err"
    using acc by (auto simp: fn_map_account_to_category_def split: sum.splits)
  from resolve_category_raises [OF r]
  show "err = NullValueNotAllowed ''FOREACH expression must not be null''"
    and "\<not> examples_not_null (categories d)"
    by blast+
  show "snd (fn_map_account_to_category d aid) = d"
    using acc r by (simp add: fn_map_account_to_category_def)
qed

text \<open>The account ``Petty'' of type Bank matches no example. With the full catalog it
  falls back to the asset category; without an asset category, and with an empty
  catalog, its mapping is \<^verbatim>\<open>NULL\<close>.\<close>

theorem resolver_null_only_without_fallback_category_witness:
  "(\<exists>c\<in>set (categories demo_db).
      fst (fn_map_account_to_category demo_db 12) = Inr (Some (cat_id c)))
   \<and> fn_map_account_to_category demo_db_no_asset 12
       = (Inr None, demo_db_no_asset\<lparr>accounts := set_mapping 12 None (accounts demo_db_no_asset)\<rparr>)
   \<and> fn_map_account_to_category demo_db_no_catalog 12
       = (Inr None,
          demo_db_no_catalog\<lparr>accounts := set_mapping 12 None (accounts demo_db_no_catalog)\<rparr>)
   \<and> fst (fn_map_account_to_category null_examples_db 12)
       = Inl (NullValueNotAllowed ''FOREACH expression must not be null'')
   \<and> \<not> examples_not_null (categories null_examples_db)"
proof -
  have acc: "find (\<lambda>r. acc_id r = 12) (accounts demo_db) = Some acct_petty"
    by (simp add: demo_defs)
  have acc2: "find (\<lambda>r. acc_id r = 12) (accounts demo_db_no_asset) = Some acct_petty"
    by (simp add: demo_defs demo_db_no_asset_def)
  have acc3: "find (\<lambda>r. acc_id r = 12) (accounts demo_db_no_catalog) = Some acct_petty"
    by (simp add: demo_defs demo_db_no_catalog_def)
  have acc4: "find (\<lambda>r. acc_id r = 12) (accounts null_examples_db) = Some acct_petty"
    by (simp add: demo_defs null_examples_db_def)
  have all: "list_all (\<lambda>ty. \<exists>c\<in>set (categories demo_db). canonical_type c = ty)
            [''revenue'', ''cogs'', ''opex'', ''asset'', ''liability'', ''equity'']"
    by (simp add: demo_defs)
  have nonnull: "examples_not_null (categories demo_db)"
    by (simp add: demo_defs examples_not_null_def)
  have low: "\<exists>b s. best_match (categories demo_db_no_asset) (acc_name acct_petty) = Inr (b, s)
               \<and> s < 50"
  proof -
    have "best_match (categories demo_db_no_asset) (acc_name acct_petty) = Inr (None, 0)"
      by code_simp
    then show ?thesis by simp
  qed
  have none: "\<not> (\<exists>c\<in>set (categories demo_db_no_asset).
                  canonical_type c = fallback_canonical_type (acc_type acct_petty))"
    by (simp add: demo_defs demo_db_no_asset_def fallback_canonical_type_def)
  have empty: "categories demo_db_no_catalog = []"
    by (simp add: demo_db_no_catalog_def)
  have raised: "fst (fn_map_account_to_category null_examples_db 12)
       = Inl (NullValueNotAllowed ''FOREACH expression must not be null'')"
    by (simp add: fn_map_account_to_category_def null_examples_db_def demo_defs
          cat_unlabelled_def resolve_category_def best_match_def)
  have c1: "\<exists>c\<in>set (categories demo_db).
      fst (fn_map_account_to_category demo_db 12) = Inr (Some (cat_id c))"
    using resolver_null_only_without_fallback_category [OF acc] all nonnull by blast
  have c2: "fn_map_account_to_category demo_db_no_asset 12
       = (Inr None, demo_db_no_asset\<lparr>accounts := set_mapping 12 None (accounts demo_db_no_asset)\<rparr>)"
    using resolver_null_only_without_fallback_category [OF acc2] low none by blast
  have c3: "fn_map_account_to_category demo_db_no_catalog 12
       = (Inr None,
          demo_db_no_catalog\<lparr>accounts := set_mapping 12 None (accounts demo_db_no_catalog)\<rparr>)"
    using resolver_null_only_without_fallback_category [OF acc3] empty by blast
  have c4: "\<not> examples_not_null (categories null_examples_db)"
    using resolver_null_only_without_fallback_category [OF acc4] raised by blast
  show ?thesis
    using c1 c2 c3 c4 raised by blast
qed

text \<open>
  The catalog that starts with the category without array has a category of each of
  the six canonical types, and the account ``Petty'' exists: the function does not
  return a category id, it raises the exception of \<^verbatim>\<open>FOREACH\<close> and stores nothing.
  With that category alone the catalog has no category of the fallback type asset:
  the function does not return \<^verbatim>\<open>NULL\<close>, it raises the same exception.
\<close>

theorem resolver_raises_on_null_examples:
  "find (\<lambda>r. acc_id r = 12) (accounts null_examples_db) = Some acct_petty
   \<and> list_all (\<lambda>ty. list_ex (\<lambda>c. canonical_type c = ty) (categories null_examples_db))
       [''revenue'', ''cogs'', ''opex'', ''asset'', ''liability'', ''equity'']
   \<and> fn_map_account_to_category null_examples_db 12
       = (Inl (NullValueNotAllowed ''FOREACH expression must not be null''), null_examples_db)
   \<and> find (\<lambda>r. acc_id r = 12) (accounts unlabelled_only_db) = Some acct_petty
   \<and> list_ex (\<lambda>c. canonical_type c = fallback_canonical_type (acc_type acct_petty))
       (categories unlabelled_only_db) = False
   \<and> fn_map_account_to_category unlabelled_only_db 12
       = (Inl (NullValueNotAllowed ''FOREACH expression must not be null''),
          unlabelled_only_db)"
proof (intro conjI)
  show "find (\<lambda>r. acc_id r = 12) (accounts null_examples_db) = Some acct_petty"
    by (simp add: demo_defs null_examples_db_def)
  show "list_all (\<lambda>ty. list_ex (\<lambda>c. canonical_type c = ty) (categories null_examples_db))
       [''revenue'', ''cogs'', ''opex'', ''asset'', ''liability'', ''equity'']"
    by code_simp
  show "fn_map_account_to_category null_examples_db 12
       = (Inl (NullValueNotAllowed ''FOREACH expression must not be null''), null_examples_db)"
    by (simp add: fn_map_account_to_category_def null_examples_db_def demo_defs
          cat_unlabelled_def resolve_category_def best_match_def)
  show "find (\<lambda>r. acc_id r = 12) (accounts unlabelled_only_db) = Some acct_petty"
    by (simp add: demo_defs unlabelled_only_db_def demo_db_no_catalog_def)
  show "list_ex (\<lambda>c. canonical_type c = fallback_canonical_type (acc_type acct_petty))
       (categories unlabelled_only_db) = False"
    by code_simp
  show "fn_map_account_to_category unlabelled_only_db 12
       = (Inl (NullValueNotAllowed ''FOREACH expression must not be null''),
          unlabelled_only_db)"
    by (simp add: fn_map_account_to_category_def unlabelled_only_db_def demo_db_no_catalog_def
          demo_defs cat_unlabelled_def resolve_category_def best_match_def)
qed




















text \<open>
  C2. The partial match is made with \<^verbatim>\<open>LIKE\<close>, and the text put between the two \<^verbatim>\<open>%\<close> is
  not escaped, so an underscore or a percent sign in an account name or in an example
  is a wildcard. The account ``A\_R'' of type Income equals no example, contains no
  example and is contained in none: by substring scoring every category scores 0
  and the account type selects the revenue category. The function finds the score
  70 for the asset category, whose example ``A/R'' matches the pattern, and maps the
  account to it.
\<close>

theorem like_wildcard_in_account_name:
  "exact_match_loop ''A_R'' demo_categories = Inr (None, 0)
   \<and> spec_best_score demo_categories ''A_R'' = 0
   \<and> spec_resolve_category demo_categories ''A_R'' ''Income'' = Some (cat_id cat_revenue)
   \<and> \<not> sublist (lower ''A_R'') (lower ''A/R'')
   \<and> sql_like (lower ''A/R'') (contains_pattern (lower ''A_R''))
   \<and> best_match demo_categories ''A_R'' = Inr (Some (cat_id cat_asset), 70)
   \<and> fst (fn_map_account_to_category demo_db 13) = Inr (Some (cat_id cat_asset))
   \<and> cat_id cat_asset \<noteq> cat_id cat_revenue"
proof (intro conjI)
  show "exact_match_loop ''A_R'' demo_categories = Inr (None, 0)"
    by code_simp
  show "spec_best_score demo_categories ''A_R'' = 0"
    by code_simp
  show "spec_resolve_category demo_categories ''A_R'' ''Income'' = Some (cat_id cat_revenue)"
    by code_simp
  show "\<not> sublist (lower ''A_R'') (lower ''A/R'')"
    by code_simp
  show "sql_like (lower ''A/R'') (contains_pattern (lower ''A_R''))"
    by code_simp
  show "best_match demo_categories ''A_R'' = Inr (Some (cat_id cat_asset), 70)"
    by code_simp
  show "fst (fn_map_account_to_category demo_db 13) = Inr (Some (cat_id cat_asset))"
    by code_simp
  show "cat_id cat_asset \<noteq> cat_id cat_revenue"
    by code_simp
qed

text \<open>
  Where no wildcard is involved the two scorings agree: for a pattern without \<^verbatim>\<open>%\<close>,
  \<^verbatim>\<open>_\<close> and backslash the \<^verbatim>\<open>LIKE\<close> test is the substring test, and for an account name
  and a catalog without these characters, and no exact match, the function resolves
  the account as the substring scoring does.
\<close>

lemma sql_like_Nil: "sql_like t [] \<longleftrightarrow> t = []"
  by (cases t) simp_all

lemma sql_like_percent_Nil: "sql_like [] (CHR ''%'' # ps) = sql_like [] ps"
  by simp

lemma sql_like_percent_Cons:
  "sql_like (c # cs) (CHR ''%'' # ps) \<longleftrightarrow> sql_like (c # cs) ps \<or> sql_like cs (CHR ''%'' # ps)"
  by simp

lemma sql_like_literal_Cons:
  "a \<noteq> CHR ''%'' \<Longrightarrow> a \<noteq> CHR ''_'' \<Longrightarrow> a \<noteq> CHR 0x5C \<Longrightarrow>
   sql_like t (a # ps) \<longleftrightarrow> (\<exists>ts. t = a # ts \<and> sql_like ts ps)"
  by (cases t) auto

declare sql_like.simps(3) [simp del]

lemma sql_like_percent:
  "sql_like t (CHR ''%'' # ps) \<longleftrightarrow> (\<exists>s. suffix s t \<and> sql_like s ps)"
proof (induction t)
  case Nil
  then show ?case by (simp add: sql_like_percent_Nil)
next
  case (Cons c cs)
  show ?case
    unfolding sql_like_percent_Cons Cons.IH suffix_Cons by blast
qed

lemma sql_like_only_percent: "sql_like t ''%''"
  unfolding sql_like_percent by (auto simp: sql_like_Nil)

lemma sql_like_literal_prefix:
  "wildcard_free p \<Longrightarrow> sql_like t (p @ ''%'') \<longleftrightarrow> prefix p t"
proof (induction p arbitrary: t)
  case Nil
  then show ?case by (simp add: sql_like_only_percent)
next
  case (Cons a p)
  then have a: "a \<noteq> CHR ''%''" "a \<noteq> CHR ''_''" "a \<noteq> CHR 0x5C" and p: "wildcard_free p"
    by (simp_all add: wildcard_free_def)
  show ?case
    using sql_like_literal_Cons [OF a, of t "p @ ''%''"] Cons.IH [OF p]
    by (cases t) auto
qed

lemma sql_like_contains:
  "wildcard_free p \<Longrightarrow> sql_like t (contains_pattern p) \<longleftrightarrow> sublist p t"
  unfolding contains_pattern_def
  by (simp add: sql_like_percent sql_like_literal_prefix sublist_altdef')


lemma lower_char_wildcard:
  assumes "c \<noteq> CHR ''%''" "c \<noteq> CHR ''_''" "c \<noteq> CHR 0x5C"
  shows "lower_char c \<noteq> CHR ''%'' \<and> lower_char c \<noteq> CHR ''_'' \<and> lower_char c \<noteq> CHR 0x5C"
proof (cases "map_of (zip ''ABCDEFGHIJKLMNOPQRSTUVWXYZ'' ''abcdefghijklmnopqrstuvwxyz'') c")
  case None
  then show ?thesis using assms by (simp add: lower_char_def)
next
  case (Some l)
  then have "l \<in> set ''abcdefghijklmnopqrstuvwxyz''"
    by (meson map_of_SomeD set_zip_rightD)
  then have "l \<noteq> CHR ''%'' \<and> l \<noteq> CHR ''_'' \<and> l \<noteq> CHR 0x5C"
    by auto
  then show ?thesis using Some by (simp add: lower_char_def)
qed

lemma wildcard_free_lower: "wildcard_free s \<Longrightarrow> wildcard_free (lower s)"
  by (induction s) (simp_all add: wildcard_free_def lower_def lower_char_wildcard)

lemma fold_max_ge: "(a::int) \<le> fold max xs a"
proof (induction xs arbitrary: a)
  case Nil
  show ?case by simp
next
  case (Cons x xs)
  have "a \<le> max x a" by simp
  also have "\<dots> \<le> fold max xs (max x a)" by (rule Cons.IH)
  finally show ?case by simp
qed

lemma spec_example_score_nonneg: "0 \<le> spec_example_score n e"
  by (simp add: spec_example_score_def)

lemma fuzzy_examples_spec:
  assumes "wildcard_free n" "list_all wildcard_free (non_null es)" "0 \<le> s"
  shows "fuzzy_examples n es s = fold max (map (spec_example_score n) (non_null es)) s"
  using assms(2,3)
proof (induction es arbitrary: s)
  case Nil
  show ?case by simp
next
  case (Cons v es)
  show ?case
  proof (cases v)
    case None
    then show ?thesis using Cons by simp
  next
    case (Some e)
    have wn: "wildcard_free (lower n)" and we: "wildcard_free (lower e)"
      using assms(1) Cons.prems(1) Some by (simp_all add: wildcard_free_lower)
    have step: "(let s1 = (if sql_like (lower n) (contains_pattern (lower e)) then max s 80 else s);
                     s2 = (if sql_like (lower e) (contains_pattern (lower n)) then max s1 70 else s1)
                 in s2) = max (spec_example_score n e) s"
      using Cons.prems(2)
      by (simp add: sql_like_contains [OF we] sql_like_contains [OF wn] spec_example_score_def
            Let_def max_def)
    have nonneg: "0 \<le> max (spec_example_score n e) s"
      using Cons.prems(2) by simp
    have "fuzzy_examples n (v # es) s = fuzzy_examples n es (max (spec_example_score n e) s)"
      using step by (simp add: Let_def Some)
    also have "\<dots> = fold max (map (spec_example_score n) (non_null es))
                        (max (spec_example_score n e) s)"
      using Cons.prems(1) Some by (intro Cons.IH nonneg) simp
    finally show ?thesis by (simp add: Some)
  qed
qed

lemma fuzzy_category_spec:
  assumes "wildcard_free n" "source_examples c = Some es" "list_all wildcard_free (labels c)"
  shows "fuzzy_examples n es 0 = spec_category_score n c"
proof -
  have l: "labels c = non_null es"
    using assms(2) by (simp add: labels_def)
  show ?thesis
    unfolding spec_category_score_def l
    by (rule fuzzy_examples_spec [OF assms(1)]) (use assms(3) l in simp_all)
qed

lemma fuzzy_match_loop_first_max:
  assumes "list_all (\<lambda>c. \<exists>es. source_examples c = Some es
                              \<and> fuzzy_examples n es 0 = score c) cs"
  shows "fuzzy_match_loop n cs (b, s)
       = Inr (if s < fold max (map score cs) s
              then map_option cat_id (find (\<lambda>c. score c = fold max (map score cs) s) cs)
              else b,
              fold max (map score cs) s)"
  using assms
proof (induction cs arbitrary: b s)
  case Nil
  show ?case by simp
next
  case (Cons c rest)
  from Cons.prems obtain es where es: "source_examples c = Some es"
    and sc: "fuzzy_examples n es 0 = score c"
    and rest: "list_all (\<lambda>c. \<exists>es. source_examples c = Some es
                                 \<and> fuzzy_examples n es 0 = score c) rest"
    by auto
  show ?case
  proof (cases "s < score c")
    case True
    then have m: "max (score c) s = score c" by simp
    have ge: "score c \<le> fold max (map score rest) (score c)" by (rule fold_max_ge)
    show ?thesis
      using True ge by (auto simp: es sc Cons.IH [OF rest] m Let_def)
  next
    case False
    then have m: "max (score c) s = s" by simp
    have ge: "s \<le> fold max (map score rest) s" by (rule fold_max_ge)
    show ?thesis
      using False ge by (auto simp: es sc Cons.IH [OF rest] m Let_def)
  qed
qed

lemma exact_match_loop_no_match:
  "examples_not_null cs \<Longrightarrow> \<not> (\<exists>c\<in>set cs. has_exact_example n c) \<Longrightarrow>
   exact_match_loop n cs = Inr (None, 0)"
  by (induction cs) (auto simp: has_exact_example_iff examples_not_null_def)

lemma fold_max_nonneg: "fold max (map (spec_category_score n) cs) 0 \<ge> 0"
  by (rule fold_max_ge)

lemma resolve_category_substring_scoring:
  assumes no_exact: "\<not> (\<exists>c\<in>set cats. has_exact_example n c)"
      and name: "wildcard_free n"
      and examples: "list_all (\<lambda>c. list_all wildcard_free (labels c)) cats"
      and nonnull: "examples_not_null cats"
  shows "(\<exists>b. best_match cats n = Inr (b, spec_best_score cats n))
       \<and> resolve_category cats n ty = Inr (spec_resolve_category cats n ty)"
proof -
  have sc: "list_all (\<lambda>c. \<exists>es. source_examples c = Some es
                \<and> fuzzy_examples n es 0 = spec_category_score n c) cats"
    unfolding list_all_iff
  proof
    fix c assume c: "c \<in> set cats"
    then obtain es where es: "source_examples c = Some es"
      using nonnull by (auto simp: examples_not_null_def list_all_iff)
    have "list_all wildcard_free (labels c)"
      using examples c by (simp add: list_all_iff)
    from fuzzy_category_spec [OF name es this] es
    show "\<exists>es. source_examples c = Some es \<and> fuzzy_examples n es 0 = spec_category_score n c"
      by simp
  qed
  have b: "best_match cats n
      = Inr (if 0 < spec_best_score cats n
             then map_option cat_id (find (\<lambda>c. spec_category_score n c = spec_best_score cats n) cats)
             else None,
             spec_best_score cats n)"
    unfolding best_match_def exact_match_loop_no_match [OF nonnull no_exact] spec_best_score_def
    by (simp add: fuzzy_match_loop_first_max [OF sc])
  show ?thesis
    unfolding resolve_category_def spec_resolve_category_def b
    by simp
qed


section \<open>Properties of the monthly aggregation\<close>

text \<open>
  C8. Both functions raise an exception of the kind InvalidArgument when the company
  id is \<^verbatim>\<open>NULL\<close>, when a period bound is \<^verbatim>\<open>NULL\<close>, when the period starts after its end,
  and when the run id is \<^verbatim>\<open>NULL\<close> or empty; the database is then as it was before the
  call.
\<close>

theorem validation_fails_before_any_write:
  assumes "p_company_id = None \<or> p_period_start = None \<or> p_period_end = None
         \<or> (\<exists>s e. p_period_start = Some s \<and> p_period_end = Some e \<and> s > e)
         \<or> p_source_run_id = None \<or> p_source_run_id = Some []"
  shows "(\<exists>msg. fn_generate_monthly_pl d p_company_id p_period_start p_period_end
                  p_source_run_id now new_id = (Inl (InvalidArgument msg), d))
       \<and> (\<exists>msg. fn_generate_monthly_cash_flow d p_company_id p_period_start p_period_end
                  p_source_run_id now new_id = (Inl (InvalidArgument msg), d))"
  using assms
  by (auto simp: fn_generate_monthly_pl_def fn_generate_monthly_cash_flow_def
           split: option.splits)

text \<open>A period from 1 February to 31 January, and an empty run id.\<close>

theorem validation_fails_before_any_write_witness:
  "(\<exists>msg. fn_generate_monthly_pl ledger_db (Some 1) (Some (2025, 2, 1)) (Some (2025, 1, 31))
            (Some ''run-1'') 1000 77 = (Inl (InvalidArgument msg), ledger_db))
   \<and> (\<exists>msg. fn_generate_monthly_cash_flow ledger_db (Some 1) (Some (2025, 2, 1))
            (Some (2025, 1, 31)) (Some ''run-1'') 1000 77 = (Inl (InvalidArgument msg), ledger_db))
   \<and> (\<exists>msg. fn_generate_monthly_pl ledger_db (Some 1) (Some (2025, 1, 1)) (Some (2025, 1, 31))
            (Some []) 1000 77 = (Inl (InvalidArgument msg), ledger_db))"
proof -
  have h1: "Some (1::uuid) = None \<or> Some ((2025, 2, 1)::date) = None
         \<or> Some ((2025, 1, 31)::date) = None
         \<or> (\<exists>s e. Some ((2025, 2, 1)::date) = Some s \<and> Some ((2025, 1, 31)::date) = Some e
                \<and> s > e)
         \<or> Some ''run-1'' = None \<or> Some ''run-1'' = Some []"
    by simp
  have h2: "Some (1::uuid) = None \<or> Some ((2025, 1, 1)::date) = None
         \<or> Some ((2025, 1, 31)::date) = None
         \<or> (\<exists>s e. Some ((2025, 1, 1)::date) = Some s \<and> Some ((2025, 1, 31)::date) = Some e
                \<and> s > e)
         \<or> Some ([]::string) = None \<or> Some ([]::string) = Some []"
    by simp
  show ?thesis
    using validation_fails_before_any_write [OF h1, of ledger_db 1000 77]
      validation_fails_before_any_write [OF h2, of ledger_db 1000 77]
    by blast
qed

lemma same_key_updated_row [simp]: "same_key cid s (updated_row new r) = same_key cid s r"
  by (simp add: same_key_def updated_row_def)

lemma row_key_updated_row [simp]: "row_key (updated_row new r) = row_key r"
  by (simp add: row_key_def updated_row_def)

lemma mr_id_updated_row [simp]: "mr_id (updated_row new r) = mr_id r"
  by (simp add: updated_row_def)

lemma same_key_row_key: "same_key cid s r \<longleftrightarrow> row_key r = (cid, s)"
  by (auto simp: same_key_def row_key_def)

lemma rows_for_distinct:
  "distinct (map row_key rows) \<Longrightarrow> rows_for cid s rows = [] \<or> (\<exists>r. rows_for cid s rows = [r])"
proof (induction rows)
  case Nil
  then show ?case by (simp add: rows_for_def)
next
  case (Cons x xs)
  show ?case
  proof (cases "same_key cid s x")
    case True
    then have "row_key x = (cid, s)" by (simp add: same_key_row_key)
    then have "\<forall>y\<in>set xs. \<not> same_key cid s y"
      using Cons.prems by (metis distinct.simps(2) image_eqI list.simps(9) set_map same_key_row_key)
    then have "rows_for cid s xs = []" by (simp add: rows_for_def filter_empty_conv)
    then show ?thesis using True by (simp add: rows_for_def)
  next
    case False
    then show ?thesis using Cons by (simp add: rows_for_def)
  qed
qed

lemma upsert_rows_rows_for:
  "rows_for (mr_company_id new) (period_start new) (snd (upsert_rows new rows))
     = (case rows_for (mr_company_id new) (period_start new) rows of
          [] \<Rightarrow> [new] | r # rest \<Rightarrow> updated_row new r # rest)"
proof (induction rows)
  case Nil
  show ?case by (simp add: rows_for_def same_key_def)
next
  case (Cons x xs)
  then show ?case by (cases "upsert_rows new xs") (simp add: rows_for_def)
qed

lemma upsert_rows_others:
  "filter (\<lambda>r. \<not> same_key (mr_company_id new) (period_start new) r) (snd (upsert_rows new rows))
     = filter (\<lambda>r. \<not> same_key (mr_company_id new) (period_start new) r) rows"
proof (induction rows)
  case Nil
  show ?case by (simp add: same_key_def)
next
  case (Cons x xs)
  then show ?case by (cases "upsert_rows new xs") simp
qed

lemma upsert_rows_keys:
  "map row_key (snd (upsert_rows new rows))
     = (if list_ex (same_key (mr_company_id new) (period_start new)) rows
        then map row_key rows else map row_key rows @ [row_key new])"
proof (induction rows)
  case Nil
  show ?case by simp
next
  case (Cons x xs)
  then show ?case by (cases "upsert_rows new xs") simp
qed

lemma upsert_rows_distinct:
  assumes "distinct (map row_key rows)"
  shows "distinct (map row_key (snd (upsert_rows new rows)))"
proof (cases "list_ex (same_key (mr_company_id new) (period_start new)) rows")
  case True
  then show ?thesis using assms by (simp add: upsert_rows_keys)
next
  case False
  then have "row_key new \<notin> set (map row_key rows)"
    by (auto simp: list_ex_iff same_key_def row_key_def)
  then show ?thesis using assms False by (simp add: upsert_rows_keys)
qed

lemma upsert_rows_length:
  "length (snd (upsert_rows new rows))
     = (if list_ex (same_key (mr_company_id new) (period_start new)) rows
        then length rows else Suc (length rows))"
proof (induction rows)
  case Nil
  show ?case by simp
next
  case (Cons x xs)
  then show ?case by (cases "upsert_rows new xs") simp
qed

lemma upsert_rows_id:
  "map mr_id (take 1 (rows_for (mr_company_id new) (period_start new) (snd (upsert_rows new rows))))
     = [fst (upsert_rows new rows)]"
proof (induction rows)
  case Nil
  show ?case by (simp add: rows_for_def same_key_def)
next
  case (Cons x xs)
  then show ?case by (cases "upsert_rows new xs") (simp add: rows_for_def)
qed


lemma new_row_key [simp]:
  "mr_company_id (new_row nid cid s e t now run) = cid"
  "period_start (new_row nid cid s e t now run) = s"
  by (simp_all add: new_row_def)

lemma do_update_ok:
  "version_can_grow r \<Longrightarrow> do_update new r = Inr (updated_row new r)"
  by (auto simp: version_can_grow_def do_update_def int4_plus_one_def updated_row_def
           split: option.splits)

lemma do_update_raises:
  "\<not> version_can_grow r \<Longrightarrow>
   do_update new r = Inl (NumericValueOutOfRange ''integer out of range'')"
  by (auto simp: version_can_grow_def do_update_def int4_plus_one_def split: option.splits)

lemma upsert_monthly_ok:
  "list_all version_can_grow (rows_for (mr_company_id new) (period_start new) rows) \<Longrightarrow>
   upsert_monthly new rows = Inr (upsert_rows new rows)"
  by (induction rows) (auto simp: rows_for_def do_update_ok split: prod.splits)

lemma upsert_monthly_raises:
  "rows_for (mr_company_id new) (period_start new) rows = r # rest \<Longrightarrow>
   \<not> version_can_grow r \<Longrightarrow>
   upsert_monthly new rows = Inl (NumericValueOutOfRange ''integer out of range'')"
proof (induction rows)
  case Nil
  then show ?case by (simp add: rows_for_def)
next
  case (Cons x xs)
  show ?case
  proof (cases "same_key (mr_company_id new) (period_start new) x")
    case True
    then have "x = r" using Cons.prems(1) by (simp add: rows_for_def)
    then show ?thesis using True Cons.prems(2) by (simp add: do_update_raises)
  next
    case False
    then have "rows_for (mr_company_id new) (period_start new) xs = r # rest"
      using Cons.prems(1) by (simp add: rows_for_def)
    from Cons.IH [OF this Cons.prems(2)] show ?thesis using False by simp
  qed
qed

lemma insert_on_conflict_ok:
  "cid \<in> set comps \<Longrightarrow>
   insert_on_conflict comps (new_row nid cid s e t now run) rows
     = upsert_monthly (new_row nid cid s e t now run) rows"
  by (simp add: insert_on_conflict_def)

lemma upsert_new_row:
  fixes nid cid :: uuid and s e :: date and t :: jsonb and now :: timestamptz and run :: string
    and rows :: "monthly_row list"
  assumes uniq: "distinct (map row_key rows)"
  defines "u \<equiv> upsert_rows (new_row nid cid s e t now run) rows"
  shows "rows_for cid s (snd u) = [written_row rows nid cid s e t now run]"
    and "mr_id (written_row rows nid cid s e t now run) = fst u"
    and "filter (\<lambda>r. \<not> same_key cid s r) (snd u) = filter (\<lambda>r. \<not> same_key cid s r) rows"
    and "distinct (map row_key (snd u))"
    and "length (snd u) = (if rows_for cid s rows = [] then Suc (length rows) else length rows)"
proof -
  let ?new = "new_row nid cid s e t now run"
  have rf: "rows_for cid s (snd u)
       = (case rows_for cid s rows of [] \<Rightarrow> [?new] | r # rest \<Rightarrow> updated_row ?new r # rest)"
    using upsert_rows_rows_for [of ?new rows] by (simp add: u_def)
  show one: "rows_for cid s (snd u) = [written_row rows nid cid s e t now run]"
    using rows_for_distinct [OF uniq, of cid s] rf
    by (auto simp: written_row_def updated_row_def new_row_def)
  have "map mr_id (take 1 (rows_for cid s (snd u))) = [fst u]"
    using upsert_rows_id [of ?new rows] by (simp add: u_def)
  then show "mr_id (written_row rows nid cid s e t now run) = fst u"
    using one by simp
  show "filter (\<lambda>r. \<not> same_key cid s r) (snd u) = filter (\<lambda>r. \<not> same_key cid s r) rows"
    using upsert_rows_others [of ?new rows] by (simp add: u_def)
  show "distinct (map row_key (snd u))"
    using upsert_rows_distinct [OF uniq, of ?new] by (simp add: u_def)
  have ex: "list_ex (same_key cid s) rows \<longleftrightarrow> rows_for cid s rows \<noteq> []"
    by (simp add: rows_for_def list_ex_iff filter_empty_conv)
  show "length (snd u) = (if rows_for cid s rows = [] then Suc (length rows) else length rows)"
    using upsert_rows_length [of ?new rows] ex by (simp add: u_def)
qed

lemma written_row_first:
  "rows_for cid s rows = [] \<Longrightarrow>
   written_row rows nid cid s e t now run = new_row nid cid s e t now run"
  by (simp add: written_row_def)

lemma written_row_again:
  "rows_for cid s rows = [r] \<Longrightarrow>
   written_row rows nid cid s e t now run
     = r\<lparr>period_end := e, totals_by_account_type := t,
         row_version := map_option (\<lambda>v. v + 1) (row_version r),
         generated_at := Some now, source_run_id := run\<rparr>"
  by (simp add: written_row_def)

lemma written_row_fields:
  "period_end (written_row rows nid cid s e t now run) = e"
  "totals_by_account_type (written_row rows nid cid s e t now run) = t"
  "source_run_id (written_row rows nid cid s e t now run) = run"
  by (simp_all add: written_row_def new_row_def split: list.splits)

lemma rerun_row:
  assumes "period_end w = e" "totals_by_account_type w = t" "source_run_id w = run"
  shows "w\<lparr>period_end := e, totals_by_account_type := t, row_version := v,
           generated_at := now', source_run_id := run\<rparr>
       = w\<lparr>row_version := v, generated_at := now'\<rparr>"
  using assms by (cases w) simp

lemma upsert_twice:
  fixes nid nid_b cid :: uuid and s e :: date and t :: jsonb and now now_b :: timestamptz
    and run :: string and rows :: "monthly_row list"
  assumes uniq: "distinct (map row_key rows)"
  defines "u \<equiv> upsert_rows (new_row nid cid s e t now run) rows"
  defines "w \<equiv> written_row rows nid cid s e t now run"
  defines "u2 \<equiv> upsert_rows (new_row nid_b cid s e t now_b run) (snd u)"
  shows "rows_for cid s (snd u) = [w]"
    and "mr_id w = fst u"
    and "filter (\<lambda>r. \<not> same_key cid s r) (snd u) = filter (\<lambda>r. \<not> same_key cid s r) rows"
    and "distinct (map row_key (snd u))"
    and "fst u2 = fst u"
    and "rows_for cid s (snd u2) = [w\<lparr>row_version := map_option (\<lambda>v. v + 1) (row_version w), generated_at := Some now_b\<rparr>]"
    and "length (snd u2) = length (snd u)"
    and "distinct (map row_key (snd u2))"
proof -
  let ?w2 = "written_row (snd u) nid_b cid s e t now_b run"
  note 1 = upsert_new_row [where nid=nid and cid=cid and s=s and e=e and t=t and now=now
      and run=run, OF uniq, folded u_def w_def]
  note 2 = upsert_new_row [where nid=nid_b and cid=cid and s=s and e=e and t=t and now=now_b
      and run=run, OF 1(4), folded u2_def]
  have w2: "?w2 = w\<lparr>row_version := map_option (\<lambda>v. v + 1) (row_version w), generated_at := Some now_b\<rparr>"
    unfolding written_row_again [OF 1(1)]
    by (rule rerun_row) (simp_all add: w_def written_row_fields)
  show "rows_for cid s (snd u) = [w]" by (rule 1(1))
  show "mr_id w = fst u" by (rule 1(2))
  show "filter (\<lambda>r. \<not> same_key cid s r) (snd u) = filter (\<lambda>r. \<not> same_key cid s r) rows"
    by (rule 1(3))
  show "distinct (map row_key (snd u))" by (rule 1(4))
  show "fst u2 = fst u" using 2(2) 1(2) w2 by simp
  show "rows_for cid s (snd u2) = [w\<lparr>row_version := map_option (\<lambda>v. v + 1) (row_version w), generated_at := Some now_b\<rparr>]"
    using 2(1) w2 by simp
  have "rows_for cid s (snd u) \<noteq> []" using 1(1) by simp
  then show "length (snd u2) = length (snd u)" using 2(5) by simp
  show "distinct (map row_key (snd u2))" by (rule 2(4))
qed

lemma fn_generate_monthly_pl_valid:
  "s \<le> e \<Longrightarrow> run \<noteq> [] \<Longrightarrow>
   fn_generate_monthly_pl d (Some cid) (Some s) (Some e) (Some run) now nid
     = (case insert_on_conflict (companies d)
               (new_row nid cid s e (pl_totals d cid s e) now run) (monthly_pl d) of
          Inl err \<Rightarrow> (Inl err, d)
        | Inr (rid, rows) \<Rightarrow> (Inr rid, d\<lparr>monthly_pl := rows\<rparr>))"
  by (simp add: fn_generate_monthly_pl_def new_row_def not_less [symmetric])

lemma fn_generate_monthly_cash_flow_valid:
  "s \<le> e \<Longrightarrow> run \<noteq> [] \<Longrightarrow>
   fn_generate_monthly_cash_flow d (Some cid) (Some s) (Some e) (Some run) now nid
     = (case insert_on_conflict (companies d)
               (new_row nid cid s e (cash_flow_totals d cid s e) now run) (monthly_cash_flow d) of
          Inl err \<Rightarrow> (Inl err, d)
        | Inr (rid, rows) \<Rightarrow> (Inr rid, d\<lparr>monthly_cash_flow := rows\<rparr>))"
  by (simp add: fn_generate_monthly_cash_flow_def new_row_def not_less [symmetric])

lemma pl_totals_monthly_pl [simp]:
  "pl_totals (d\<lparr>monthly_pl := rows\<rparr>) cid s e = pl_totals d cid s e"
  by (simp add: pl_totals_def sum_by_canonical_type_def cong: if_cong)

lemma cash_flow_totals_monthly_cash_flow [simp]:
  "cash_flow_totals (d\<lparr>monthly_cash_flow := rows\<rparr>) cid s e = cash_flow_totals d cid s e"
  by (simp add: cash_flow_totals_def sum_by_account_type_def cong: if_cong)


text \<open>
  One write and its repetition on a table with distinct keys, when the version of
  the row under the key, if there is one, can be raised.
\<close>

lemma upsert_versioned:
  fixes nid nid_b cid :: uuid and s e :: date and t :: jsonb and now now_b :: timestamptz
    and run :: string and rows :: "monthly_row list" and comps :: "uuid list"
  assumes company: "cid \<in> set comps"
      and uniq: "distinct (map row_key rows)"
      and bound: "list_all version_can_grow (rows_for cid s rows)"
  shows "\<exists>rid w rows1.
        insert_on_conflict comps (new_row nid cid s e t now run) rows = Inr (rid, rows1)
      \<and> rows_for cid s rows1 = [w] \<and> mr_id w = rid
      \<and> (rows_for cid s rows = [] \<longrightarrow> w = new_row nid cid s e t now run)
      \<and> (\<forall>r. rows_for cid s rows = [r] \<longrightarrow>
            w = r\<lparr>period_end := e, totals_by_account_type := t,
                  row_version := map_option (\<lambda>v. v + 1) (row_version r),
                  generated_at := Some now, source_run_id := run\<rparr>)
      \<and> totals_by_account_type w = t
      \<and> filter (\<lambda>r. \<not> same_key cid s r) rows1 = filter (\<lambda>r. \<not> same_key cid s r) rows
      \<and> distinct (map row_key rows1)
      \<and> (version_can_grow w \<longrightarrow>
           (\<exists>w2 rows2.
              insert_on_conflict comps (new_row nid_b cid s e t now_b run) rows1 = Inr (rid, rows2)
            \<and> rows_for cid s rows2 = [w2]
            \<and> w2 = w\<lparr>row_version := map_option (\<lambda>v. v + 1) (row_version w),
                      generated_at := Some now_b\<rparr>
            \<and> totals_by_account_type w2 = totals_by_account_type w
            \<and> length rows2 = length rows1
            \<and> distinct (map row_key rows2)))
      \<and> (\<not> version_can_grow w \<longrightarrow>
           insert_on_conflict comps (new_row nid_b cid s e t now_b run) rows1
             = Inl (NumericValueOutOfRange ''integer out of range''))"
proof -
  let ?new = "new_row nid cid s e t now run"
  let ?new2 = "new_row nid_b cid s e t now_b run"
  let ?u = "upsert_rows ?new rows"
  let ?w = "written_row rows nid cid s e t now run"
  let ?u2 = "upsert_rows ?new2 (snd ?u)"
  note f = upsert_twice(1-4) [where nid=nid and cid=cid and s=s and e=e
      and t=t and now=now and run=run, OF uniq]
  note g = upsert_twice(5-8) [where nid=nid and nid_b=nid_b and cid=cid and s=s and e=e
      and t=t and now=now and now_b=now_b and run=run, OF uniq]
  have first: "insert_on_conflict comps ?new rows = Inr (fst ?u, snd ?u)"
    unfolding insert_on_conflict_ok [OF company]
    using upsert_monthly_ok [of ?new rows] bound by simp
  have again: "\<forall>r. rows_for cid s rows = [r] \<longrightarrow>
            ?w = r\<lparr>period_end := e, totals_by_account_type := t,
                  row_version := map_option (\<lambda>v. v + 1) (row_version r),
                  generated_at := Some now, source_run_id := run\<rparr>"
    by (simp add: written_row_def)
  have second: "\<exists>w2 rows2.
              insert_on_conflict comps ?new2 (snd ?u) = Inr (fst ?u, rows2)
            \<and> rows_for cid s rows2 = [w2]
            \<and> w2 = ?w\<lparr>row_version := map_option (\<lambda>v. v + 1) (row_version ?w),
                       generated_at := Some now_b\<rparr>
            \<and> totals_by_account_type w2 = totals_by_account_type ?w
            \<and> length rows2 = length (snd ?u)
            \<and> distinct (map row_key rows2)" if grow: "version_can_grow ?w"
  proof -
    have "list_all version_can_grow (rows_for cid s (snd ?u))"
      unfolding f(1) using grow by simp
    then have "upsert_monthly ?new2 (snd ?u) = Inr ?u2"
      using upsert_monthly_ok [of ?new2 "snd ?u"] by simp
    moreover have "?u2 = (fst ?u, snd ?u2)"
      using g(1) by (simp add: prod_eq_iff)
    ultimately have c: "insert_on_conflict comps ?new2 (snd ?u) = Inr (fst ?u, snd ?u2)"
      unfolding insert_on_conflict_ok [OF company] by simp
    show ?thesis
      apply (rule exI [of _ "?w\<lparr>row_version := map_option (\<lambda>v. v + 1) (row_version ?w),
                                 generated_at := Some now_b\<rparr>"])
      apply (rule exI [of _ "snd ?u2"])
      apply (intro conjI)
      subgoal by (rule c)
      subgoal by (rule g(2))
      subgoal by (rule refl)
      subgoal by simp
      subgoal by (rule g(3))
      subgoal by (rule g(4))
      done
  qed
  have last: "insert_on_conflict comps ?new2 (snd ?u)
             = Inl (NumericValueOutOfRange ''integer out of range'')"
    if top: "\<not> version_can_grow ?w"
  proof -
    have "rows_for (mr_company_id ?new2) (period_start ?new2) (snd ?u) = ?w # []"
      using f(1) by simp
    from upsert_monthly_raises [OF this top] show ?thesis
      unfolding insert_on_conflict_ok [OF company] .
  qed
  show ?thesis
    apply (rule exI [of _ "fst ?u"], rule exI [of _ ?w], rule exI [of _ "snd ?u"])
    apply (intro conjI)
    subgoal by (rule first)
    subgoal by (rule f(1))
    subgoal by (rule f(2))
    subgoal by (simp add: written_row_first)
    subgoal by (rule again)
    subgoal by (rule written_row_fields(2))
    subgoal by (rule f(3))
    subgoal by (rule f(4))
    subgoal using second by blast
    subgoal using last by blast
    done
qed

lemma pl_upsert:
  assumes company: "cid \<in> set (companies d)" and period: "s \<le> e" and run: "run \<noteq> []"
      and uniq: "distinct (map row_key (monthly_pl d))"
      and bound: "list_all version_can_grow (rows_for cid s (monthly_pl d))"
  shows "(\<exists>rid w rows1.
        fn_generate_monthly_pl d (Some cid) (Some s) (Some e) (Some run) now new_id
          = (Inr rid, d\<lparr>monthly_pl := rows1\<rparr>)
      \<and> rows_for cid s rows1 = [w] \<and> mr_id w = rid
      \<and> (rows_for cid s (monthly_pl d) = [] \<longrightarrow>
            w = \<lparr>mr_id = new_id, mr_company_id = cid, period_start = s, period_end = e,
                 totals_by_account_type = pl_totals d cid s e, row_version = Some 1,
                 generated_at = Some now, source_run_id = run\<rparr>)
      \<and> (\<forall>r. rows_for cid s (monthly_pl d) = [r] \<longrightarrow>
            w = r\<lparr>period_end := e, totals_by_account_type := pl_totals d cid s e,
                  row_version := map_option (\<lambda>v. v + 1) (row_version r),
                  generated_at := Some now, source_run_id := run\<rparr>)
      \<and> totals_by_account_type w = pl_totals d cid s e
      \<and> filter (\<lambda>r. \<not> same_key cid s r) rows1 = filter (\<lambda>r. \<not> same_key cid s r) (monthly_pl d)
      \<and> distinct (map row_key rows1)
      \<and> (version_can_grow w \<longrightarrow>
           (\<exists>w2 rows2.
              fn_generate_monthly_pl (d\<lparr>monthly_pl := rows1\<rparr>) (Some cid) (Some s) (Some e)
                (Some run) now2 new_id2 = (Inr rid, d\<lparr>monthly_pl := rows2\<rparr>)
            \<and> rows_for cid s rows2 = [w2]
            \<and> w2 = w\<lparr>row_version := map_option (\<lambda>v. v + 1) (row_version w),
                      generated_at := Some now2\<rparr>
            \<and> totals_by_account_type w2 = totals_by_account_type w
            \<and> length rows2 = length rows1
            \<and> distinct (map row_key rows2)))
      \<and> (\<not> version_can_grow w \<longrightarrow>
           fn_generate_monthly_pl (d\<lparr>monthly_pl := rows1\<rparr>) (Some cid) (Some s) (Some e)
             (Some run) now2 new_id2
             = (Inl (NumericValueOutOfRange ''integer out of range''), d\<lparr>monthly_pl := rows1\<rparr>)))"
proof -
  let ?t = "pl_totals d cid s e"
  from upsert_versioned [where comps="companies d" and rows="monthly_pl d" and nid=new_id
      and nid_b=new_id2 and now=now and now_b=now2 and t="?t" and e=e and run=run,
      OF company uniq bound]
  obtain rid w rows1 where
    c1: "insert_on_conflict (companies d) (new_row new_id cid s e ?t now run) (monthly_pl d)
           = Inr (rid, rows1)"
    and r1: "rows_for cid s rows1 = [w]"
    and i1: "mr_id w = rid"
    and n1: "rows_for cid s (monthly_pl d) = [] \<longrightarrow> w = new_row new_id cid s e ?t now run"
    and a1: "\<forall>r. rows_for cid s (monthly_pl d) = [r] \<longrightarrow>
            w = r\<lparr>period_end := e, totals_by_account_type := ?t,
                  row_version := map_option (\<lambda>v. v + 1) (row_version r),
                  generated_at := Some now, source_run_id := run\<rparr>"
    and t1: "totals_by_account_type w = ?t"
    and o1: "filter (\<lambda>r. \<not> same_key cid s r) rows1
             = filter (\<lambda>r. \<not> same_key cid s r) (monthly_pl d)"
    and d1: "distinct (map row_key rows1)"
    and s1: "version_can_grow w \<longrightarrow>
           (\<exists>w2 rows2.
              insert_on_conflict (companies d) (new_row new_id2 cid s e ?t now2 run) rows1
                = Inr (rid, rows2)
            \<and> rows_for cid s rows2 = [w2]
            \<and> w2 = w\<lparr>row_version := map_option (\<lambda>v. v + 1) (row_version w),
                      generated_at := Some now2\<rparr>
            \<and> totals_by_account_type w2 = totals_by_account_type w
            \<and> length rows2 = length rows1
            \<and> distinct (map row_key rows2))"
    and l1: "\<not> version_can_grow w \<longrightarrow>
           insert_on_conflict (companies d) (new_row new_id2 cid s e ?t now2 run) rows1
             = Inl (NumericValueOutOfRange ''integer out of range'')"
    by (elim exE conjE) (rule that; assumption)
  have first: "fn_generate_monthly_pl d (Some cid) (Some s) (Some e) (Some run) now new_id
      = (Inr rid, d\<lparr>monthly_pl := rows1\<rparr>)"
    unfolding fn_generate_monthly_pl_valid [OF period run] c1 by simp
  have again: "fn_generate_monthly_pl (d\<lparr>monthly_pl := rows1\<rparr>) (Some cid) (Some s) (Some e)
        (Some run) now2 new_id2
      = (case insert_on_conflict (companies d) (new_row new_id2 cid s e ?t now2 run) rows1 of
           Inl err \<Rightarrow> (Inl err, d\<lparr>monthly_pl := rows1\<rparr>)
         | Inr (rid, rows) \<Rightarrow> (Inr rid, d\<lparr>monthly_pl := rows\<rparr>))"
    unfolding fn_generate_monthly_pl_valid [OF period run]
    by (simp split: sum.splits)
  have second: "\<exists>w2 rows2.
              fn_generate_monthly_pl (d\<lparr>monthly_pl := rows1\<rparr>) (Some cid) (Some s) (Some e)
                (Some run) now2 new_id2 = (Inr rid, d\<lparr>monthly_pl := rows2\<rparr>)
            \<and> rows_for cid s rows2 = [w2]
            \<and> w2 = w\<lparr>row_version := map_option (\<lambda>v. v + 1) (row_version w),
                      generated_at := Some now2\<rparr>
            \<and> totals_by_account_type w2 = totals_by_account_type w
            \<and> length rows2 = length rows1
            \<and> distinct (map row_key rows2)" if "version_can_grow w"
  proof -
    from s1 [THEN mp, OF that] obtain w2 rows2 where
      c2: "insert_on_conflict (companies d) (new_row new_id2 cid s e ?t now2 run) rows1
                = Inr (rid, rows2)"
      and rest: "rows_for cid s rows2 = [w2]"
        "w2 = w\<lparr>row_version := map_option (\<lambda>v. v + 1) (row_version w),
                generated_at := Some now2\<rparr>"
        "totals_by_account_type w2 = totals_by_account_type w"
        "length rows2 = length rows1"
        "distinct (map row_key rows2)"
      by (elim exE conjE) (rule that; assumption)
    have "fn_generate_monthly_pl (d\<lparr>monthly_pl := rows1\<rparr>) (Some cid) (Some s) (Some e)
                (Some run) now2 new_id2 = (Inr rid, d\<lparr>monthly_pl := rows2\<rparr>)"
      unfolding again c2 by simp
    then show ?thesis
      apply (intro exI [of _ w2] exI [of _ rows2] conjI)
      subgoal by assumption
      subgoal by (rule rest(1))
      subgoal by (rule rest(2))
      subgoal by (rule rest(3))
      subgoal by (rule rest(4))
      subgoal by (rule rest(5))
      done
  qed
  have last: "fn_generate_monthly_pl (d\<lparr>monthly_pl := rows1\<rparr>) (Some cid) (Some s) (Some e)
             (Some run) now2 new_id2
             = (Inl (NumericValueOutOfRange ''integer out of range''), d\<lparr>monthly_pl := rows1\<rparr>)"
    if "\<not> version_can_grow w"
    unfolding again using l1 that by simp
  show ?thesis
    apply (rule exI [of _ rid], rule exI [of _ w], rule exI [of _ rows1])
    apply (intro conjI)
    subgoal by (rule first)
    subgoal by (rule r1)
    subgoal by (rule i1)
    subgoal using n1 by (simp add: new_row_def)
    subgoal by (rule a1)
    subgoal by (rule t1)
    subgoal by (rule o1)
    subgoal by (rule d1)
    subgoal using second by blast
    subgoal using last by blast
    done
qed

lemma cash_flow_upsert:
  assumes company: "cid \<in> set (companies d)" and period: "s \<le> e" and run: "run \<noteq> []"
      and uniq: "distinct (map row_key (monthly_cash_flow d))"
      and bound: "list_all version_can_grow (rows_for cid s (monthly_cash_flow d))"
  shows "(\<exists>rid w rows1.
        fn_generate_monthly_cash_flow d (Some cid) (Some s) (Some e) (Some run) now new_id
          = (Inr rid, d\<lparr>monthly_cash_flow := rows1\<rparr>)
      \<and> rows_for cid s rows1 = [w] \<and> mr_id w = rid
      \<and> (rows_for cid s (monthly_cash_flow d) = [] \<longrightarrow>
            w = \<lparr>mr_id = new_id, mr_company_id = cid, period_start = s, period_end = e,
                 totals_by_account_type = cash_flow_totals d cid s e, row_version = Some 1,
                 generated_at = Some now, source_run_id = run\<rparr>)
      \<and> (\<forall>r. rows_for cid s (monthly_cash_flow d) = [r] \<longrightarrow>
            w = r\<lparr>period_end := e, totals_by_account_type := cash_flow_totals d cid s e,
                  row_version := map_option (\<lambda>v. v + 1) (row_version r),
                  generated_at := Some now, source_run_id := run\<rparr>)
      \<and> totals_by_account_type w = cash_flow_totals d cid s e
      \<and> filter (\<lambda>r. \<not> same_key cid s r) rows1 = filter (\<lambda>r. \<not> same_key cid s r) (monthly_cash_flow d)
      \<and> distinct (map row_key rows1)
      \<and> (version_can_grow w \<longrightarrow>
           (\<exists>w2 rows2.
              fn_generate_monthly_cash_flow (d\<lparr>monthly_cash_flow := rows1\<rparr>) (Some cid) (Some s) (Some e)
                (Some run) now2 new_id2 = (Inr rid, d\<lparr>monthly_cash_flow := rows2\<rparr>)
            \<and> rows_for cid s rows2 = [w2]
            \<and> w2 = w\<lparr>row_version := map_option (\<lambda>v. v + 1) (row_version w),
                      generated_at := Some now2\<rparr>
            \<and> totals_by_account_type w2 = totals_by_account_type w
            \<and> length rows2 = length rows1
            \<and> distinct (map row_key rows2)))
      \<and> (\<not> version_can_grow w \<longrightarrow>
           fn_generate_monthly_cash_flow (d\<lparr>monthly_cash_flow := rows1\<rparr>) (Some cid) (Some s) (Some e)
             (Some run) now2 new_id2
             = (Inl (NumericValueOutOfRange ''integer out of range''), d\<lparr>monthly_cash_flow := rows1\<rparr>)))"
proof -
  let ?t = "cash_flow_totals d cid s e"
  from upsert_versioned [where comps="companies d" and rows="monthly_cash_flow d" and nid=new_id
      and nid_b=new_id2 and now=now and now_b=now2 and t="?t" and e=e and run=run,
      OF company uniq bound]
  obtain rid w rows1 where
    c1: "insert_on_conflict (companies d) (new_row new_id cid s e ?t now run) (monthly_cash_flow d)
           = Inr (rid, rows1)"
    and r1: "rows_for cid s rows1 = [w]"
    and i1: "mr_id w = rid"
    and n1: "rows_for cid s (monthly_cash_flow d) = [] \<longrightarrow> w = new_row new_id cid s e ?t now run"
    and a1: "\<forall>r. rows_for cid s (monthly_cash_flow d) = [r] \<longrightarrow>
            w = r\<lparr>period_end := e, totals_by_account_type := ?t,
                  row_version := map_option (\<lambda>v. v + 1) (row_version r),
                  generated_at := Some now, source_run_id := run\<rparr>"
    and t1: "totals_by_account_type w = ?t"
    and o1: "filter (\<lambda>r. \<not> same_key cid s r) rows1
             = filter (\<lambda>r. \<not> same_key cid s r) (monthly_cash_flow d)"
    and d1: "distinct (map row_key rows1)"
    and s1: "version_can_grow w \<longrightarrow>
           (\<exists>w2 rows2.
              insert_on_conflict (companies d) (new_row new_id2 cid s e ?t now2 run) rows1
                = Inr (rid, rows2)
            \<and> rows_for cid s rows2 = [w2]
            \<and> w2 = w\<lparr>row_version := map_option (\<lambda>v. v + 1) (row_version w),
                      generated_at := Some now2\<rparr>
            \<and> totals_by_account_type w2 = totals_by_account_type w
            \<and> length rows2 = length rows1
            \<and> distinct (map row_key rows2))"
    and l1: "\<not> version_can_grow w \<longrightarrow>
           insert_on_conflict (companies d) (new_row new_id2 cid s e ?t now2 run) rows1
             = Inl (NumericValueOutOfRange ''integer out of range'')"
    by (elim exE conjE) (rule that; assumption)
  have first: "fn_generate_monthly_cash_flow d (Some cid) (Some s) (Some e) (Some run) now new_id
      = (Inr rid, d\<lparr>monthly_cash_flow := rows1\<rparr>)"
    unfolding fn_generate_monthly_cash_flow_valid [OF period run] c1 by simp
  have again: "fn_generate_monthly_cash_flow (d\<lparr>monthly_cash_flow := rows1\<rparr>) (Some cid) (Some s) (Some e)
        (Some run) now2 new_id2
      = (case insert_on_conflict (companies d) (new_row new_id2 cid s e ?t now2 run) rows1 of
           Inl err \<Rightarrow> (Inl err, d\<lparr>monthly_cash_flow := rows1\<rparr>)
         | Inr (rid, rows) \<Rightarrow> (Inr rid, d\<lparr>monthly_cash_flow := rows\<rparr>))"
    unfolding fn_generate_monthly_cash_flow_valid [OF period run]
    by (simp split: sum.splits)
  have second: "\<exists>w2 rows2.
              fn_generate_monthly_cash_flow (d\<lparr>monthly_cash_flow := rows1\<rparr>) (Some cid) (Some s) (Some e)
                (Some run) now2 new_id2 = (Inr rid, d\<lparr>monthly_cash_flow := rows2\<rparr>)
            \<and> rows_for cid s rows2 = [w2]
            \<and> w2 = w\<lparr>row_version := map_option (\<lambda>v. v + 1) (row_version w),
                      generated_at := Some now2\<rparr>
            \<and> totals_by_account_type w2 = totals_by_account_type w
            \<and> length rows2 = length rows1
            \<and> distinct (map row_key rows2)" if "version_can_grow w"
  proof -
    from s1 [THEN mp, OF that] obtain w2 rows2 where
      c2: "insert_on_conflict (companies d) (new_row new_id2 cid s e ?t now2 run) rows1
                = Inr (rid, rows2)"
      and rest: "rows_for cid s rows2 = [w2]"
        "w2 = w\<lparr>row_version := map_option (\<lambda>v. v + 1) (row_version w),
                generated_at := Some now2\<rparr>"
        "totals_by_account_type w2 = totals_by_account_type w"
        "length rows2 = length rows1"
        "distinct (map row_key rows2)"
      by (elim exE conjE) (rule that; assumption)
    have "fn_generate_monthly_cash_flow (d\<lparr>monthly_cash_flow := rows1\<rparr>) (Some cid) (Some s) (Some e)
                (Some run) now2 new_id2 = (Inr rid, d\<lparr>monthly_cash_flow := rows2\<rparr>)"
      unfolding again c2 by simp
    then show ?thesis
      apply (intro exI [of _ w2] exI [of _ rows2] conjI)
      subgoal by assumption
      subgoal by (rule rest(1))
      subgoal by (rule rest(2))
      subgoal by (rule rest(3))
      subgoal by (rule rest(4))
      subgoal by (rule rest(5))
      done
  qed
  have last: "fn_generate_monthly_cash_flow (d\<lparr>monthly_cash_flow := rows1\<rparr>) (Some cid) (Some s) (Some e)
             (Some run) now2 new_id2
             = (Inl (NumericValueOutOfRange ''integer out of range''), d\<lparr>monthly_cash_flow := rows1\<rparr>)"
    if "\<not> version_can_grow w"
    unfolding again using l1 that by simp
  show ?thesis
    apply (rule exI [of _ rid], rule exI [of _ w], rule exI [of _ rows1])
    apply (intro conjI)
    subgoal by (rule first)
    subgoal by (rule r1)
    subgoal by (rule i1)
    subgoal using n1 by (simp add: new_row_def)
    subgoal by (rule a1)
    subgoal by (rule t1)
    subgoal by (rule o1)
    subgoal by (rule d1)
    subgoal using second by blast
    subgoal using last by blast
    done
qed




lemma concat_lookup:
  assumes "distinct (map key xs)"
  shows "concat (map (\<lambda>x. if k = Some (key x) then G x else []) xs)
       = (case k of
            None \<Rightarrow> []
          | Some a \<Rightarrow> (case find (\<lambda>x. key x = a) xs of None \<Rightarrow> [] | Some x \<Rightarrow> G x))"
proof (cases k)
  case None
  then show ?thesis by simp
next
  case (Some a)
  have "concat (map (\<lambda>x. if Some a = Some (key x) then G x else []) xs)
      = (case find (\<lambda>x. key x = a) xs of None \<Rightarrow> [] | Some x \<Rightarrow> G x)"
    using assms
  proof (induction xs)
    case Nil
    then show ?case by simp
  next
    case (Cons x xs)
    show ?case
    proof (cases "key x = a")
      case True
      then have "\<forall>y\<in>set xs. key y \<noteq> a"
        using Cons.prems by (metis distinct.simps(2) image_eqI list.simps(9) set_map)
      then have "concat (map (\<lambda>x. if Some a = Some (key x) then G x else []) xs) = []"
        by (induction xs) auto
      then show ?thesis using True by simp
    next
      case False
      then have "a \<noteq> key x" by blast
      then show ?thesis using Cons False by simp
    qed
  qed
  then show ?thesis using Some by simp
qed

lemma sum_list_concat_map:
  "sum_list (concat (map F xs)) = sum_list (map (\<lambda>x. sum_list (F x :: rat list)) xs)"
  by (induction xs) simp_all

lemma sum_list_if_filter:
  "sum_list (map (\<lambda>x. if P x then f x else (0::rat)) xs) = sum_list (map f (filter P xs))"
  by (induction xs) simp_all

lemma sum_by_canonical_type_eq:
  assumes "distinct (map acc_id (accounts d))" "distinct (map cat_id (categories d))"
  shows "sum_by_canonical_type d cid s e ty = spec_pl_sum d cid s e ty"
proof -
  have inner: "sum_list (concat (map (\<lambda>acc. if rt_account_id rt = Some (acc_id acc)
            then concat (map (\<lambda>cat. if mapping_category_id acc = Some (cat_id cat)
                   then if rt_company_id rt = cid
                        then if s \<le> rt_date rt
                             then if rt_date rt \<le> e
                                  then if canonical_type cat = ty then [rt_amount rt] else []
                                  else []
                             else []
                        else []
                   else []) (categories d))
            else []) (accounts d)))
     = (if in_period cid s e rt \<and> map_option canonical_type (category_of d rt) = Some ty
        then rt_amount rt else 0)" for rt
    unfolding concat_lookup [OF assms(2)] concat_lookup [OF assms(1)]
    by (simp add: in_period_def category_of_def account_of_def split: option.splits)
  show ?thesis
    unfolding sum_by_canonical_type_def spec_pl_sum_def
    by (subst sum_list_concat_map) (simp only: inner sum_list_if_filter)
qed


lemma sum_by_account_type_eq:
  assumes "distinct (map acc_id (accounts d))"
  shows "sum_by_account_type d cid s e tys = spec_cash_flow_sum d cid s e tys"
proof -
  have inner: "sum_list (concat (map (\<lambda>acc. if rt_account_id rt = Some (acc_id acc)
            then if rt_company_id rt = cid
                 then if s \<le> rt_date rt
                      then if rt_date rt \<le> e
                           then if acc_type acc \<in> set tys then [rt_amount rt] else []
                           else []
                      else []
                 else []
            else []) (accounts d)))
     = (if in_period cid s e rt
           \<and> (case account_of d rt of None \<Rightarrow> False | Some acc \<Rightarrow> acc_type acc \<in> set tys)
        then rt_amount rt else 0)" for rt
    unfolding concat_lookup [OF assms(1)]
    by (simp add: in_period_def account_of_def split: option.splits)
  show ?thesis
    unfolding sum_by_account_type_def spec_cash_flow_sum_def
    by (subst sum_list_concat_map) (simp only: inner sum_list_if_filter)
qed

lemma filter_filter_implied:
  "(\<And>x. Q x \<Longrightarrow> K x) \<Longrightarrow> filter Q (filter K xs) = filter Q xs"
  by (induction xs) auto

lemma account_of_raw_transactions [simp]:
  "account_of (d\<lparr>raw_transactions := xs\<rparr>) rt = account_of d rt"
  by (simp add: account_of_def split: option.splits)

lemma category_of_raw_transactions [simp]:
  "category_of (d\<lparr>raw_transactions := xs\<rparr>) rt = category_of d rt"
  by (simp add: category_of_def split: option.splits)

lemma spec_pl_sum_drop:
  assumes "\<And>rt. map_option canonical_type (category_of d rt) = Some ty \<Longrightarrow> K rt"
  shows "spec_pl_sum (d\<lparr>raw_transactions := filter K (raw_transactions d)\<rparr>) cid s e ty
       = spec_pl_sum d cid s e ty"
proof -
  have "filter (\<lambda>rt. in_period cid s e rt
                    \<and> map_option canonical_type (category_of d rt) = Some ty)
          (filter K (raw_transactions d))
      = filter (\<lambda>rt. in_period cid s e rt
                    \<and> map_option canonical_type (category_of d rt) = Some ty)
          (raw_transactions d)"
    by (rule filter_filter_implied) (use assms in blast)
  then show ?thesis
    unfolding spec_pl_sum_def by simp
qed

lemma spec_cash_flow_sum_drop:
  assumes "\<And>rt acc. account_of d rt = Some acc \<Longrightarrow> acc_type acc \<in> set tys \<Longrightarrow> K rt"
  shows "spec_cash_flow_sum (d\<lparr>raw_transactions := filter K (raw_transactions d)\<rparr>) cid s e tys
       = spec_cash_flow_sum d cid s e tys"
proof -
  have "filter (\<lambda>rt. in_period cid s e rt
                    \<and> (case account_of d rt of None \<Rightarrow> False | Some acc \<Rightarrow> acc_type acc \<in> set tys))
          (filter K (raw_transactions d))
      = filter (\<lambda>rt. in_period cid s e rt
                    \<and> (case account_of d rt of None \<Rightarrow> False | Some acc \<Rightarrow> acc_type acc \<in> set tys))
          (raw_transactions d)"
    by (rule filter_filter_implied) (use assms in \<open>auto split: option.splits\<close>)
  then show ?thesis
    unfolding spec_cash_flow_sum_def by simp
qed

lemma pl_written_totals:
  assumes company: "cid \<in> set (companies d)" and period: "s \<le> e" and run: "run \<noteq> []"
      and uniq: "distinct (map row_key (monthly_pl d))"
      and bound: "list_all version_can_grow (rows_for cid s (monthly_pl d))"
  shows "\<exists>rid rows w.
      fn_generate_monthly_pl d (Some cid) (Some s) (Some e) (Some run) now new_id = (Inr rid, d\<lparr>monthly_pl := rows\<rparr>)
    \<and> rows_for cid s rows = [w]
    \<and> totals_by_account_type w = pl_totals d cid s e"
proof -
  from pl_upsert [OF company period run uniq bound, of now new_id now new_id]
  obtain rid w rows1 where
    c: "fn_generate_monthly_pl d (Some cid) (Some s) (Some e) (Some run) now new_id = (Inr rid, d\<lparr>monthly_pl := rows1\<rparr>)"
    and r: "rows_for cid s rows1 = [w]"
    and t: "totals_by_account_type w = pl_totals d cid s e"
    by (elim exE conjE) (rule that; assumption)
  show ?thesis
    apply (intro exI [of _ rid] exI [of _ rows1] exI [of _ w] conjI)
    subgoal by (rule c)
    subgoal by (rule r)
    subgoal by (rule t)
    done
qed

lemma cash_flow_written_totals:
  assumes company: "cid \<in> set (companies d)" and period: "s \<le> e" and run: "run \<noteq> []"
      and uniq: "distinct (map row_key (monthly_cash_flow d))"
      and bound: "list_all version_can_grow (rows_for cid s (monthly_cash_flow d))"
  shows "\<exists>rid rows w.
      fn_generate_monthly_cash_flow d (Some cid) (Some s) (Some e) (Some run) now new_id = (Inr rid, d\<lparr>monthly_cash_flow := rows\<rparr>)
    \<and> rows_for cid s rows = [w]
    \<and> totals_by_account_type w = cash_flow_totals d cid s e"
proof -
  from cash_flow_upsert [OF company period run uniq bound, of now new_id now new_id]
  obtain rid w rows1 where
    c: "fn_generate_monthly_cash_flow d (Some cid) (Some s) (Some e) (Some run) now new_id = (Inr rid, d\<lparr>monthly_cash_flow := rows1\<rparr>)"
    and r: "rows_for cid s rows1 = [w]"
    and t: "totals_by_account_type w = cash_flow_totals d cid s e"
    by (elim exE conjE) (rule that; assumption)
  show ?thesis
    apply (intro exI [of _ rid] exI [of _ rows1] exI [of _ w] conjI)
    subgoal by (rule c)
    subgoal by (rule r)
    subgoal by (rule t)
    done
qed

text \<open>
  C5. With the primary keys of \<^verbatim>\<open>accounts\<close> and \<^verbatim>\<open>categories\<close> distinct, the three P\&L totals
  are the sums of the amounts, as signed, of the transactions of the company dated
  within the period whose account is mapped to a category of canonical type revenue,
  cogs and opex. A transaction without account, with an account that is not in the
  table, with an unmapped account or with a mapping that is not in the catalog counts
  in none of them: dropping all such transactions leaves the totals as they are. A
  valid call, for a period whose stored version is not 2147483647, stores exactly
  these totals in the row of the period.
\<close>

theorem pl_totals_by_resolved_category:
  assumes accs: "distinct (map acc_id (accounts d))"
      and cats: "distinct (map cat_id (categories d))"
  shows "pl_totals d cid s e
       = [(''revenue'', spec_pl_sum d cid s e ''revenue''),
          (''cogs'', spec_pl_sum d cid s e ''cogs''),
          (''opex'', spec_pl_sum d cid s e ''opex'')]
     \<and> pl_totals (d\<lparr>raw_transactions :=
                      filter (\<lambda>rt. category_of d rt \<noteq> None) (raw_transactions d)\<rparr>) cid s e
       = pl_totals d cid s e
     \<and> (cid \<in> set (companies d) \<and> s \<le> e \<and> run \<noteq> [] \<and> distinct (map row_key (monthly_pl d))
          \<and> list_all version_can_grow (rows_for cid s (monthly_pl d))
        \<longrightarrow> (\<exists>rid rows w.
               fn_generate_monthly_pl d (Some cid) (Some s) (Some e) (Some run) now new_id
                 = (Inr rid, d\<lparr>monthly_pl := rows\<rparr>)
             \<and> rows_for cid s rows = [w]
             \<and> totals_by_account_type w = pl_totals d cid s e))"
proof (intro conjI impI)
  let ?d' = "d\<lparr>raw_transactions := filter (\<lambda>rt. category_of d rt \<noteq> None) (raw_transactions d)\<rparr>"
  have eq: "sum_by_canonical_type d cid s e ty = spec_pl_sum d cid s e ty" for ty
    by (rule sum_by_canonical_type_eq [OF accs cats])
  have accs': "distinct (map acc_id (accounts ?d'))" and cats': "distinct (map cat_id (categories ?d'))"
    using accs cats by simp_all
  have drop: "spec_pl_sum ?d' cid s e ty = spec_pl_sum d cid s e ty" for ty
    by (rule spec_pl_sum_drop) auto
  have eq': "sum_by_canonical_type ?d' cid s e ty = spec_pl_sum d cid s e ty" for ty
    unfolding sum_by_canonical_type_eq [OF accs' cats'] by (rule drop)
  show "pl_totals d cid s e
       = [(''revenue'', spec_pl_sum d cid s e ''revenue''),
          (''cogs'', spec_pl_sum d cid s e ''cogs''),
          (''opex'', spec_pl_sum d cid s e ''opex'')]"
    unfolding pl_totals_def eq ..
  show "pl_totals ?d' cid s e = pl_totals d cid s e"
    unfolding pl_totals_def eq eq' ..
next
  assume "cid \<in> set (companies d) \<and> s \<le> e \<and> run \<noteq> [] \<and> distinct (map row_key (monthly_pl d))
          \<and> list_all version_can_grow (rows_for cid s (monthly_pl d))"
  then show "\<exists>rid rows w.
               fn_generate_monthly_pl d (Some cid) (Some s) (Some e) (Some run) now new_id
                 = (Inr rid, d\<lparr>monthly_pl := rows\<rparr>)
             \<and> rows_for cid s rows = [w]
             \<and> totals_by_account_type w = pl_totals d cid s e"
    using pl_written_totals by blast
qed

text \<open>The ledger of January 2025: 100 on a revenue account, \<open>-30\<close> on a cogs account,
  \<open>-20\<close> on an opex account; transaction 5 is on an unmapped account and transaction 6
  has no account.\<close>

theorem pl_totals_by_resolved_category_witness:
  "pl_totals ledger_db 1 (2025, 1, 1) (2025, 1, 31)
     = [(''revenue'', 100), (''cogs'', - 30), (''opex'', - 20)]
   \<and> map rt_id (filter (\<lambda>rt. category_of ledger_db rt = None) (raw_transactions ledger_db))
     = [5, 6]
   \<and> (\<exists>rid rows w.
         fn_generate_monthly_pl ledger_db (Some 1) (Some (2025, 1, 1)) (Some (2025, 1, 31))
           (Some ''run-1'') 1000 77 = (Inr rid, ledger_db\<lparr>monthly_pl := rows\<rparr>)
       \<and> rows_for 1 (2025, 1, 1) rows = [w]
       \<and> totals_by_account_type w = [(''revenue'', 100), (''cogs'', - 30), (''opex'', - 20)])"
proof -
  have accs: "distinct (map acc_id (accounts ledger_db))"
    by (simp add: ledger_db_def ledger_accounts_def)
  have cats: "distinct (map cat_id (categories ledger_db))"
    by (simp add: ledger_db_def demo_defs)
  have valid: "(1::uuid) \<in> set (companies ledger_db) \<and> ((2025, 1, 1)::date) \<le> (2025, 1, 31)
      \<and> ''run-1'' \<noteq> [] \<and> distinct (map row_key (monthly_pl ledger_db))
      \<and> list_all version_can_grow (rows_for 1 (2025, 1, 1) (monthly_pl ledger_db))"
    by (simp add: ledger_db_def rows_for_def)
  note t = pl_totals_by_resolved_category [OF accs cats, of 1 "(2025, 1, 1)" "(2025, 1, 31)"
      "''run-1''" 1000 77]
  have s1: "spec_pl_sum ledger_db 1 (2025, 1, 1) (2025, 1, 31) ''revenue'' = 100"
    by code_simp
  have s2: "spec_pl_sum ledger_db 1 (2025, 1, 1) (2025, 1, 31) ''cogs'' = - 30"
    by code_simp
  have s3: "spec_pl_sum ledger_db 1 (2025, 1, 1) (2025, 1, 31) ''opex'' = - 20"
    by code_simp
  have tot: "pl_totals ledger_db 1 (2025, 1, 1) (2025, 1, 31)
     = [(''revenue'', 100), (''cogs'', - 30), (''opex'', - 20)]"
    using t s1 s2 s3 by simp
  have un: "map rt_id (filter (\<lambda>rt. category_of ledger_db rt = None) (raw_transactions ledger_db))
     = [5, 6]"
    by code_simp
  from t valid have "\<exists>rid rows w.
         fn_generate_monthly_pl ledger_db (Some 1) (Some (2025, 1, 1)) (Some (2025, 1, 31))
           (Some ''run-1'') 1000 77 = (Inr rid, ledger_db\<lparr>monthly_pl := rows\<rparr>)
       \<and> rows_for 1 (2025, 1, 1) rows = [w]
       \<and> totals_by_account_type w = pl_totals ledger_db 1 (2025, 1, 1) (2025, 1, 31)"
    by blast
  then show ?thesis
    unfolding tot using tot un by blast
qed

lemma sum_by_account_type_mapping:
  "sum_by_account_type
     (d\<lparr>categories := cs, accounts := map (\<lambda>a. a\<lparr>mapping_category_id := m a\<rparr>) (accounts d)\<rparr>)
     cid s e tys
   = sum_by_account_type d cid s e tys"
  by (simp add: sum_by_account_type_def comp_def cong: if_cong)


text \<open>
  C6. With the primary key of \<^verbatim>\<open>accounts\<close> distinct, the three cash-flow totals are the sums
  of the amounts of the transactions of the company dated within the period whose
  account has a type in the operating, investing and financing list. The totals do
  not depend on the catalog or on the mapping of any account. A transaction whose
  account has none of the nine listed types counts in none of the totals: dropping
  all such transactions, and in particular all transactions on accounts of type Bank,
  leaves the totals as they are. A valid call, for a period whose stored version is
  not 2147483647, stores exactly these totals in the row of the period.
\<close>

theorem cash_flow_totals_by_account_type:
  assumes accs: "distinct (map acc_id (accounts d))"
  shows "cash_flow_totals d cid s e
       = [(''operating'', spec_cash_flow_sum d cid s e
             [''Income'', ''Expense'', ''Other Income'', ''Other Expense'', ''Cost of Goods Sold'']),
          (''investing'', spec_cash_flow_sum d cid s e [''Fixed Asset'', ''Other Asset'']),
          (''financing'', spec_cash_flow_sum d cid s e [''Long Term Liability'', ''Equity''])]
     \<and> cash_flow_totals
         (d\<lparr>categories := cs,
            accounts := map (\<lambda>a. a\<lparr>mapping_category_id := m a\<rparr>) (accounts d)\<rparr>) cid s e
       = cash_flow_totals d cid s e
     \<and> cash_flow_totals
         (d\<lparr>raw_transactions :=
              filter (\<lambda>rt. case account_of d rt of
                             None \<Rightarrow> False
                           | Some acc \<Rightarrow> acc_type acc \<in> set
                               [''Income'', ''Expense'', ''Other Income'', ''Other Expense'',
                                ''Cost of Goods Sold'', ''Fixed Asset'', ''Other Asset'',
                                ''Long Term Liability'', ''Equity''])
                (raw_transactions d)\<rparr>) cid s e
       = cash_flow_totals d cid s e
     \<and> cash_flow_totals
         (d\<lparr>raw_transactions :=
              filter (\<lambda>rt. map_option acc_type (account_of d rt) \<noteq> Some ''Bank'')
                (raw_transactions d)\<rparr>) cid s e
       = cash_flow_totals d cid s e
     \<and> (cid \<in> set (companies d) \<and> s \<le> e \<and> run \<noteq> []
          \<and> distinct (map row_key (monthly_cash_flow d))
          \<and> list_all version_can_grow (rows_for cid s (monthly_cash_flow d))
        \<longrightarrow> (\<exists>rid rows w.
               fn_generate_monthly_cash_flow d (Some cid) (Some s) (Some e) (Some run) now new_id
                 = (Inr rid, d\<lparr>monthly_cash_flow := rows\<rparr>)
             \<and> rows_for cid s rows = [w]
             \<and> totals_by_account_type w = cash_flow_totals d cid s e))"
proof (intro conjI impI)
  let ?K9 = "\<lambda>rt. case account_of d rt of
                             None \<Rightarrow> False
                           | Some acc \<Rightarrow> acc_type acc \<in> set
                               [''Income'', ''Expense'', ''Other Income'', ''Other Expense'',
                                ''Cost of Goods Sold'', ''Fixed Asset'', ''Other Asset'',
                                ''Long Term Liability'', ''Equity'']"
  let ?KB = "\<lambda>rt. map_option acc_type (account_of d rt) \<noteq> Some ''Bank''"
  let ?d9 = "d\<lparr>raw_transactions := filter ?K9 (raw_transactions d)\<rparr>"
  let ?dB = "d\<lparr>raw_transactions := filter ?KB (raw_transactions d)\<rparr>"
  have eq: "sum_by_account_type d cid s e tys = spec_cash_flow_sum d cid s e tys" for tys
    by (rule sum_by_account_type_eq [OF accs])
  have accs9: "distinct (map acc_id (accounts ?d9))" and accsB: "distinct (map acc_id (accounts ?dB))"
    using accs by simp_all
  have d9: "spec_cash_flow_sum ?d9 cid s e tys = spec_cash_flow_sum d cid s e tys"
    if "set tys \<subseteq> set [''Income'', ''Expense'', ''Other Income'', ''Other Expense'',
                                ''Cost of Goods Sold'', ''Fixed Asset'', ''Other Asset'',
                                ''Long Term Liability'', ''Equity'']" for tys
    by (rule spec_cash_flow_sum_drop) (use that in auto)
  have dB: "spec_cash_flow_sum ?dB cid s e tys = spec_cash_flow_sum d cid s e tys"
    if "''Bank'' \<notin> set tys" for tys
    by (rule spec_cash_flow_sum_drop) (use that in auto)
  show "cash_flow_totals d cid s e
       = [(''operating'', spec_cash_flow_sum d cid s e
             [''Income'', ''Expense'', ''Other Income'', ''Other Expense'', ''Cost of Goods Sold'']),
          (''investing'', spec_cash_flow_sum d cid s e [''Fixed Asset'', ''Other Asset'']),
          (''financing'', spec_cash_flow_sum d cid s e [''Long Term Liability'', ''Equity''])]"
    unfolding cash_flow_totals_def eq operating_types_def investing_types_def financing_types_def ..
  show "cash_flow_totals
         (d\<lparr>categories := cs,
            accounts := map (\<lambda>a. a\<lparr>mapping_category_id := m a\<rparr>) (accounts d)\<rparr>) cid s e
       = cash_flow_totals d cid s e"
    unfolding cash_flow_totals_def sum_by_account_type_mapping ..
  show "cash_flow_totals ?d9 cid s e = cash_flow_totals d cid s e"
    unfolding cash_flow_totals_def sum_by_account_type_eq [OF accs9] eq
      operating_types_def investing_types_def financing_types_def
    by (simp add: d9)
  have b1: "spec_cash_flow_sum ?dB cid s e operating_types
      = spec_cash_flow_sum d cid s e operating_types"
    by (rule dB) (simp add: operating_types_def)
  have b2: "spec_cash_flow_sum ?dB cid s e investing_types
      = spec_cash_flow_sum d cid s e investing_types"
    by (rule dB) (simp add: investing_types_def)
  have b3: "spec_cash_flow_sum ?dB cid s e financing_types
      = spec_cash_flow_sum d cid s e financing_types"
    by (rule dB) (simp add: financing_types_def)
  show "cash_flow_totals ?dB cid s e = cash_flow_totals d cid s e"
    unfolding cash_flow_totals_def sum_by_account_type_eq [OF accsB] eq b1 b2 b3 ..
next
  assume "cid \<in> set (companies d) \<and> s \<le> e \<and> run \<noteq> []
          \<and> distinct (map row_key (monthly_cash_flow d))
          \<and> list_all version_can_grow (rows_for cid s (monthly_cash_flow d))"
  then show "\<exists>rid rows w.
               fn_generate_monthly_cash_flow d (Some cid) (Some s) (Some e) (Some run) now new_id
                 = (Inr rid, d\<lparr>monthly_cash_flow := rows\<rparr>)
             \<and> rows_for cid s rows = [w]
             \<and> totals_by_account_type w = cash_flow_totals d cid s e"
    using cash_flow_written_totals by blast
qed


text \<open>The ledger of January 2025: transaction 4, of 500, is on the Bank account; the
  unmapped account of type Expense counts in the operating total.\<close>

theorem cash_flow_totals_by_account_type_witness:
  "cash_flow_totals ledger_db 1 (2025, 1, 1) (2025, 1, 31)
     = [(''operating'', 43), (''investing'', - 250), (''financing'', 1000)]
   \<and> map rt_amount (filter (\<lambda>rt. map_option acc_type (account_of ledger_db rt) = Some ''Bank'')
                        (raw_transactions ledger_db)) = [500]
   \<and> (\<exists>rid rows w.
         fn_generate_monthly_cash_flow ledger_db (Some 1) (Some (2025, 1, 1))
           (Some (2025, 1, 31)) (Some ''run-1'') 1000 77
           = (Inr rid, ledger_db\<lparr>monthly_cash_flow := rows\<rparr>)
       \<and> rows_for 1 (2025, 1, 1) rows = [w]
       \<and> totals_by_account_type w
           = [(''operating'', 43), (''investing'', - 250), (''financing'', 1000)])"
proof -
  have accs: "distinct (map acc_id (accounts ledger_db))"
    by (simp add: ledger_db_def ledger_accounts_def)
  have valid: "(1::uuid) \<in> set (companies ledger_db) \<and> ((2025, 1, 1)::date) \<le> (2025, 1, 31)
      \<and> ''run-1'' \<noteq> [] \<and> distinct (map row_key (monthly_cash_flow ledger_db))
      \<and> list_all version_can_grow (rows_for 1 (2025, 1, 1) (monthly_cash_flow ledger_db))"
    by (simp add: ledger_db_def rows_for_def)
  note t = cash_flow_totals_by_account_type [OF accs, of 1 "(2025, 1, 1)" "(2025, 1, 31)"
      _ _ "''run-1''" 1000 77]
  have s1: "spec_cash_flow_sum ledger_db 1 (2025, 1, 1) (2025, 1, 31)
      [''Income'', ''Expense'', ''Other Income'', ''Other Expense'', ''Cost of Goods Sold''] = 43"
    by code_simp
  have s2: "spec_cash_flow_sum ledger_db 1 (2025, 1, 1) (2025, 1, 31)
      [''Fixed Asset'', ''Other Asset''] = - 250"
    by code_simp
  have s3: "spec_cash_flow_sum ledger_db 1 (2025, 1, 1) (2025, 1, 31)
      [''Long Term Liability'', ''Equity''] = 1000"
    by code_simp
  have tot: "cash_flow_totals ledger_db 1 (2025, 1, 1) (2025, 1, 31)
     = [(''operating'', 43), (''investing'', - 250), (''financing'', 1000)]"
    using t s1 s2 s3 by simp
  have bank: "map rt_amount (filter (\<lambda>rt. map_option acc_type (account_of ledger_db rt) = Some ''Bank'')
                        (raw_transactions ledger_db)) = [500]"
    by code_simp
  from t valid have "\<exists>rid rows w.
         fn_generate_monthly_cash_flow ledger_db (Some 1) (Some (2025, 1, 1))
           (Some (2025, 1, 31)) (Some ''run-1'') 1000 77
           = (Inr rid, ledger_db\<lparr>monthly_cash_flow := rows\<rparr>)
       \<and> rows_for 1 (2025, 1, 1) rows = [w]
       \<and> totals_by_account_type w = cash_flow_totals ledger_db 1 (2025, 1, 1) (2025, 1, 31)"
    by blast
  then show ?thesis
    unfolding tot using tot bank by blast
qed

section \<open>Properties of the projection\<close>

lemma fn_generate_projection_raises:
  "\<exists>err. fn_generate_projection d p_company_id = (Inl err, d)"
  by (simp add: fn_generate_projection_def split: option.splits)

lemma fn_generate_projection_existing:
  "cid \<in> set (companies d) \<Longrightarrow>
   fn_generate_projection d (Some cid) = (Inl history_query_error, d)"
  by (simp add: fn_generate_projection_def)

text \<open>
  C7. The function never returns a count and never writes a projection: whatever the
  database and the argument are, a call ends in an exception and leaves the database
  as it was. For a company that exists the exception is the one of the history
  query. Company 2 exists and has no history: the specification gives the result 0,
  the call raises. Company 1 exists and has six months of history: the specification
  gives twelve rows and the result 12, the call raises and the table of projections
  stays empty. A call without company id and a call for company 3, which does not
  exist, raise the exceptions of the two checks.
\<close>

theorem projection_never_written:
  "(\<exists>err. fn_generate_projection d p_company_id = (Inl err, d))
   \<and> companies history_db = [1, 2]
   \<and> spec_history_rows history_db 2 (2025, 7, 1) = []
   \<and> fn_generate_projection history_db (Some 2) = (Inl history_query_error, history_db)
   \<and> length (spec_history_rows history_db 1 (2025, 7, 1)) = 6
   \<and> fn_generate_projection history_db (Some 1) = (Inl history_query_error, history_db)
   \<and> projections_12m (snd (fn_generate_projection history_db (Some 1))) = []
   \<and> fn_generate_projection history_db None
       = (Inl (InvalidArgument ''company_id cannot be NULL''), history_db)
   \<and> fn_generate_projection history_db (Some 3)
       = (Inl (NotFound ''Company does not exist''), history_db)"
proof (intro conjI)
  have c: "companies history_db = [1, 2]"
    by (simp add: history_db_def demo_db_def)
  show "\<exists>err. fn_generate_projection d p_company_id = (Inl err, d)"
    by (rule fn_generate_projection_raises)
  show "companies history_db = [1, 2]"
    by (rule c)
  show "spec_history_rows history_db 2 (2025, 7, 1) = []"
    by code_simp
  show "fn_generate_projection history_db (Some 2) = (Inl history_query_error, history_db)"
    by (rule fn_generate_projection_existing) (simp add: c)
  show "length (spec_history_rows history_db 1 (2025, 7, 1)) = 6"
    by code_simp
  show e: "fn_generate_projection history_db (Some 1) = (Inl history_query_error, history_db)"
    by (rule fn_generate_projection_existing) (simp add: c)
  show "projections_12m (snd (fn_generate_projection history_db (Some 1))) = []"
    unfolding e by (simp add: history_db_def demo_db_def)
  show "fn_generate_projection history_db None
       = (Inl (InvalidArgument ''company_id cannot be NULL''), history_db)"
    by (simp add: fn_generate_projection_def)
  show "fn_generate_projection history_db (Some 3)
       = (Inl (NotFound ''Company does not exist''), history_db)"
    by (simp add: fn_generate_projection_def c)
qed

text \<open>
  C1. On 15 July 2025 the six months before the current month run from 1 January to
  30 June 2025. Company 1 has seven rows that start in them, one that starts before
  and one that starts in July: the specification computes the base averages from
  the six most recent of the seven, the most recent first, with revenues of mean
  1100 and costs of 600 each, and counts 6 months. Company 2 has one row in the
  window and one before it: the specification uses the one. The function, for
  either company, raises the exception of the history query and computes no
  average.
\<close>

theorem history_query_refused:
  "map period_start (spec_history_rows window_db 1 (2025, 7, 15))
     = [(2025, 6, 15), (2025, 6, 1), (2025, 5, 1), (2025, 4, 1), (2025, 3, 1), (2025, 2, 1)]
   \<and> map spec_revenue (spec_history_rows window_db 1 (2025, 7, 15))
     = [Some 1500, Some 1100, Some 1050, Some 1000, Some 1000, Some 950]
   \<and> map spec_costs (spec_history_rows window_db 1 (2025, 7, 15))
     = [600, 600, 600, 600, 600, 600]
   \<and> map period_start (spec_history_rows window_db 2 (2025, 7, 15)) = [(2025, 1, 1)]
   \<and> companies window_db = [1, 2]
   \<and> fn_generate_projection window_db (Some 1)
     = (Inl (GroupingError ''column monthly_pl.period_start must appear in the GROUP BY clause or be used in an aggregate function''),
        window_db)
   \<and> fn_generate_projection window_db (Some 2)
     = (Inl (GroupingError ''column monthly_pl.period_start must appear in the GROUP BY clause or be used in an aggregate function''),
        window_db)"
proof (intro conjI)
  have c: "companies window_db = [1, 2]"
    by (simp add: window_db_def demo_db_def)
  show "map period_start (spec_history_rows window_db 1 (2025, 7, 15))
     = [(2025, 6, 15), (2025, 6, 1), (2025, 5, 1), (2025, 4, 1), (2025, 3, 1), (2025, 2, 1)]"
    by code_simp
  show "map spec_revenue (spec_history_rows window_db 1 (2025, 7, 15))
     = [Some 1500, Some 1100, Some 1050, Some 1000, Some 1000, Some 950]"
    by code_simp
  show "map spec_costs (spec_history_rows window_db 1 (2025, 7, 15))
     = [600, 600, 600, 600, 600, 600]"
    by code_simp
  show "map period_start (spec_history_rows window_db 2 (2025, 7, 15)) = [(2025, 1, 1)]"
    by code_simp
  show "companies window_db = [1, 2]"
    by (rule c)
  show "fn_generate_projection window_db (Some 1)
     = (Inl (GroupingError ''column monthly_pl.period_start must appear in the GROUP BY clause or be used in an aggregate function''),
        window_db)"
    unfolding history_query_error_def [symmetric]
    by (rule fn_generate_projection_existing) (simp add: c)
  show "fn_generate_projection window_db (Some 2)
     = (Inl (GroupingError ''column monthly_pl.period_start must appear in the GROUP BY clause or be used in an aggregate function''),
        window_db)"
    unfolding history_query_error_def [symmetric]
    by (rule fn_generate_projection_existing) (simp add: c)
qed

end
